theory Spec2Isabelle
  imports Main
begin

section \<open>The compact ML307 board: data model\<close>

text \<open>
  The development embeds \<^verbatim>\<open>main/boards/bread-compact-ml307/compact_ml307_board.cc\<close>.
  The class \<^verbatim>\<open>CompactMl307Board\<close> owns an I2C bus handle, two panel handles, a pointer to
  a display object and four buttons; its constructor brings the display up and registers the
  button callbacks, and three accessors hand out the LED, the audio codec and the display.

  Calls into ESP-IDF are answered by an environment record (\<open>idf\<close>): the result code of
  every driver call is an input of the model. Constants of \<^verbatim>\<open>config.h\<close> and
  \<^verbatim>\<open>assets/lang_config.h\<close>, which are not part of the file, are fields of a
  \<open>config\<close> record.
\<close>

type_synonym esp_err_t = int
type_synonym handle = nat
type_synonym addr = nat

definition ESP_OK :: esp_err_t where
  "ESP_OK = 0"

text \<open>Pointers: \<open>nullptr\<close>, the address of one of the two function-local statics, or the
  address of an object created by \<^verbatim>\<open>new\<close>.\<close>

datatype ptr = nullptr | static_led | static_audio_codec | heap_obj addr

text \<open>The seven lambdas of \<^verbatim>\<open>InitializeButtons\<close>, in source order. A closure captures
  only \<^verbatim>\<open>this\<close>, so it is identified by its position.\<close>

datatype callback =
    boot_OnClick
  | touch_OnPressDown
  | touch_OnPressUp
  | volume_up_OnClick
  | volume_up_OnLongPress
  | volume_down_OnClick
  | volume_down_OnLongPress

text \<open>Modelled from the spec: the class \<^verbatim>\<open>Button\<close> (\<^verbatim>\<open>button.h\<close>) is not part of the
  file. A button holds its signal line and, per event kind, zero or one registered callback;
  \<^verbatim>\<open>OnClick\<close>, \<^verbatim>\<open>OnPressDown\<close>, \<^verbatim>\<open>OnPressUp\<close> and \<^verbatim>\<open>OnLongPress\<close> store the callback.\<close>

record Button =
  gpio_num :: int
  on_press_down :: "callback option"
  on_press_up :: "callback option"
  on_click :: "callback option"
  on_long_press :: "callback option"

text \<open>Modelled from the spec: the constructor of the absent class \<^verbatim>\<open>Button\<close> takes the
  signal line and leaves every event kind without a callback.\<close>

definition Button_ctor :: "int \<Rightarrow> Button" where
  "Button_ctor gpio =
     \<lparr>gpio_num = gpio, on_press_down = None, on_press_up = None,
      on_click = None, on_long_press = None\<rparr>"

text \<open>Modelled from the spec: the four registration methods of the absent class
  \<^verbatim>\<open>Button\<close> store the callback for their event kind.\<close>

definition OnClick :: "callback \<Rightarrow> Button \<Rightarrow> Button" where
  "OnClick cb b = b\<lparr>on_click := Some cb\<rparr>"

definition OnPressDown :: "callback \<Rightarrow> Button \<Rightarrow> Button" where
  "OnPressDown cb b = b\<lparr>on_press_down := Some cb\<rparr>"

definition OnPressUp :: "callback \<Rightarrow> Button \<Rightarrow> Button" where
  "OnPressUp cb b = b\<lparr>on_press_up := Some cb\<rparr>"

definition OnLongPress :: "callback \<Rightarrow> Button \<Rightarrow> Button" where
  "OnLongPress cb b = b\<lparr>on_long_press := Some cb\<rparr>"

definition wired :: "Button \<Rightarrow> bool" where
  "wired b \<longleftrightarrow>
     on_press_down b \<noteq> None \<or> on_press_up b \<noteq> None \<or>
     on_click b \<noteq> None \<or> on_long_press b \<noteq> None"

text \<open>Modelled from the spec: the display classes (\<^verbatim>\<open>display/oled_display.h\<close>) are not part
  of the file. A display is either the real OLED display, which keeps its constructor
  arguments and the notification it currently shows, or the no-op stub.\<close>

record oled =
  oled_panel_io :: handle
  oled_panel :: handle
  oled_width :: int
  oled_height :: int
  oled_mirror_x :: bool
  oled_mirror_y :: bool
  oled_fonts :: "string list"
  notification :: "string option"

datatype Display = NoDisplay | OledDisplay oled

record SingleLed =
  led_gpio :: int

datatype codec_kind = NoAudioCodecSimplex | NoAudioCodecDuplex

text \<open>Modelled from the spec: the codec classes (\<^verbatim>\<open>audio_codecs/no_audio_codec.h\<close>) are
  not part of the file. The codec exposes \<^verbatim>\<open>output_volume()\<close> and
  \<^verbatim>\<open>SetOutputVolume\<close>; the volume is a C++ \<^verbatim>\<open>int\<close>, modelled as \<open>int\<close> (the handlers only
  add or subtract 10, which cannot overflow for volumes between 0 and 100).\<close>

record AudioCodec =
  kind :: codec_kind
  codec_args :: "int list"
  output_volume :: int

datatype app_call = ToggleChatState | StartListening | StopListening

record config =
  DISPLAY_SDA_PIN :: int
  DISPLAY_SCL_PIN :: int
  DISPLAY_WIDTH :: int
  DISPLAY_HEIGHT :: int
  DISPLAY_MIRROR_X :: bool
  DISPLAY_MIRROR_Y :: bool
  BOOT_BUTTON_GPIO :: int
  TOUCH_BUTTON_GPIO :: int
  VOLUME_UP_BUTTON_GPIO :: int
  VOLUME_DOWN_BUTTON_GPIO :: int
  BUILTIN_LED_GPIO :: int
  AUDIO_I2S_METHOD_SIMPLEX :: bool
  AUDIO_SIMPLEX_ARGS :: "int list"
  AUDIO_DUPLEX_ARGS :: "int list"
  initial_output_volume :: int
  VOLUME :: string
  MAX_VOLUME :: string
  MUTED :: string

record i2c_master_bus_config_t =
  i2c_port :: int
  sda_io_num :: int
  scl_io_num :: int
  glitch_ignore_cnt :: nat
  intr_priority :: int
  trans_queue_depth :: nat
  enable_internal_pullup :: bool

record esp_lcd_panel_io_i2c_config_t =
  dev_addr :: nat
  control_phase_bytes :: nat
  dc_bit_offset :: nat
  lcd_cmd_bits :: nat
  lcd_param_bits :: nat
  dc_low_on_data :: bool
  disable_control_phase :: bool
  scl_speed_hz :: nat

record esp_lcd_panel_dev_config_t =
  reset_gpio_num :: int
  bits_per_pixel :: nat
  ssd1306_height :: int

text \<open>The answers of the ESP-IDF drivers: a result code and, for the three creating calls,
  the handle left in the out-parameter.\<close>

record idf =
  i2c_new_master_bus :: "i2c_master_bus_config_t \<Rightarrow> esp_err_t \<times> handle"
  esp_lcd_new_panel_io_i2c_v2 :: "handle \<Rightarrow> esp_lcd_panel_io_i2c_config_t \<Rightarrow> esp_err_t \<times> handle"
  esp_lcd_new_panel_ssd1306 :: "handle \<Rightarrow> esp_lcd_panel_dev_config_t \<Rightarrow> esp_err_t \<times> handle"
  esp_lcd_panel_reset :: "handle \<Rightarrow> esp_err_t"
  esp_lcd_panel_init :: "handle \<Rightarrow> esp_err_t"
  esp_lcd_panel_disp_on_off :: "handle \<Rightarrow> bool \<Rightarrow> esp_err_t"

text \<open>The state of the process: the members of the board object (written without the
  trailing underscore of the source, which is not a name here), the store of objects created
  by \<^verbatim>\<open>new\<close> with its next free address, the two function-local statics (\<open>None\<close>
  until the declaration has been passed once), and what the collaborators
  \<^verbatim>\<open>Application\<close> and \<^verbatim>\<open>iot::ThingManager\<close> have received. The base class
  \<^verbatim>\<open>Ml307Board\<close> (the modem transport) is outside the file and has no part in the state.\<close>

record system =
  display_i2c_bus :: handle
  panel_io :: handle
  panel :: handle
  display :: ptr
  boot_button :: Button
  touch_button :: Button
  volume_up_button :: Button
  volume_down_button :: Button
  heap :: "addr \<Rightarrow> Display option"
  brk :: addr
  led :: "SingleLed option"
  audio_codec :: "AudioCodec option"
  application :: "app_call list"
  things :: "string list"

datatype fault = Abort string esp_err_t | NullPointer

section \<open>Operations\<close>

text \<open>Modelled from the spec: the macro \<^verbatim>\<open>ESP_ERROR_CHECK\<close> is not part of the file. A
  result code other than \<open>ESP_OK\<close> aborts the process with a diagnostic, which names the
  failed call and carries its code; the state at the abort is kept beside it.\<close>

definition ESP_ERROR_CHECK :: "string \<Rightarrow> esp_err_t \<Rightarrow> system \<Rightarrow> (fault \<times> system) + system" where
  "ESP_ERROR_CHECK call rc s = (if rc \<noteq> ESP_OK then Inl (Abort call rc, s) else Inr s)"

text \<open>\<^verbatim>\<open>new\<close> places the object at the next free address; the store is taken to have room.\<close>

definition new :: "Display \<Rightarrow> system \<Rightarrow> ptr \<times> system" where
  "new d s = (heap_obj (brk s), s\<lparr>heap := (heap s)(brk s \<mapsto> d), brk := brk s + 1\<rparr>)"

definition bus_config :: "config \<Rightarrow> i2c_master_bus_config_t" where
  "bus_config cfg =
     \<lparr>i2c_port = 0,
      sda_io_num = DISPLAY_SDA_PIN cfg,
      scl_io_num = DISPLAY_SCL_PIN cfg,
      glitch_ignore_cnt = 7,
      intr_priority = 0,
      trans_queue_depth = 0,
      enable_internal_pullup = True\<rparr>"

definition InitializeDisplayI2c :: "config \<Rightarrow> idf \<Rightarrow> system \<Rightarrow> (fault \<times> system) + system" where
  "InitializeDisplayI2c cfg env s =
     (let (rc, bus) = i2c_new_master_bus env (bus_config cfg)
      in ESP_ERROR_CHECK ''i2c_new_master_bus'' rc (s\<lparr>display_i2c_bus := bus\<rparr>))"

definition io_config :: esp_lcd_panel_io_i2c_config_t where
  "io_config =
     \<lparr>dev_addr = 0x3C,
      control_phase_bytes = 1,
      dc_bit_offset = 6,
      lcd_cmd_bits = 8,
      lcd_param_bits = 8,
      dc_low_on_data = False,
      disable_control_phase = False,
      scl_speed_hz = 400 * 1000\<rparr>"

text \<open>The height goes through \<^verbatim>\<open>static_cast<uint8_t>\<close>, which keeps it modulo 256.\<close>

definition panel_config :: "config \<Rightarrow> esp_lcd_panel_dev_config_t" where
  "panel_config cfg =
     \<lparr>reset_gpio_num = - 1,
      bits_per_pixel = 1,
      ssd1306_height = DISPLAY_HEIGHT cfg mod 256\<rparr>"

definition new_OledDisplay :: "config \<Rightarrow> handle \<Rightarrow> handle \<Rightarrow> Display" where
  "new_OledDisplay cfg io pnl =
     OledDisplay
       \<lparr>oled_panel_io = io,
        oled_panel = pnl,
        oled_width = DISPLAY_WIDTH cfg,
        oled_height = DISPLAY_HEIGHT cfg,
        oled_mirror_x = DISPLAY_MIRROR_X cfg,
        oled_mirror_y = DISPLAY_MIRROR_Y cfg,
        oled_fonts = [''font_puhui_14_1'', ''font_awesome_14_1''],
        notification = None\<rparr>"

definition InitializeSsd1306Display :: "config \<Rightarrow> idf \<Rightarrow> system \<Rightarrow> (fault \<times> system) + system" where
  "InitializeSsd1306Display cfg env s =
     (let (rc_io, io) = esp_lcd_new_panel_io_i2c_v2 env (display_i2c_bus s) io_config
      in case ESP_ERROR_CHECK ''esp_lcd_new_panel_io_i2c_v2'' rc_io (s\<lparr>panel_io := io\<rparr>) of
           Inl f \<Rightarrow> Inl f
         | Inr s1 \<Rightarrow>
            (let (rc_panel, pnl) = esp_lcd_new_panel_ssd1306 env (panel_io s1) (panel_config cfg)
             in case ESP_ERROR_CHECK ''esp_lcd_new_panel_ssd1306'' rc_panel (s1\<lparr>panel := pnl\<rparr>) of
                  Inl f \<Rightarrow> Inl f
                | Inr s2 \<Rightarrow>
                   (case ESP_ERROR_CHECK ''esp_lcd_panel_reset''
                           (esp_lcd_panel_reset env (panel s2)) s2 of
                      Inl f \<Rightarrow> Inl f
                    | Inr s3 \<Rightarrow>
                       if esp_lcd_panel_init env (panel s3) \<noteq> ESP_OK then
                         (let (p, s4) = new NoDisplay s3 in Inr (s4\<lparr>display := p\<rparr>))
                       else
                         (case ESP_ERROR_CHECK ''esp_lcd_panel_disp_on_off''
                                 (esp_lcd_panel_disp_on_off env (panel s3) True) s3 of
                            Inl f \<Rightarrow> Inl f
                          | Inr s4 \<Rightarrow>
                             (let (p, s5) = new (new_OledDisplay cfg (panel_io s4) (panel s4)) s4
                              in Inr (s5\<lparr>display := p\<rparr>))))))"

definition InitializeButtons :: "system \<Rightarrow> system" where
  "InitializeButtons s =
     (let s = s\<lparr>boot_button := OnClick boot_OnClick (boot_button s)\<rparr>;
          s = s\<lparr>touch_button := OnPressDown touch_OnPressDown (touch_button s)\<rparr>;
          s = s\<lparr>touch_button := OnPressUp touch_OnPressUp (touch_button s)\<rparr>;
          s = s\<lparr>volume_up_button := OnClick volume_up_OnClick (volume_up_button s)\<rparr>;
          s = s\<lparr>volume_up_button := OnLongPress volume_up_OnLongPress (volume_up_button s)\<rparr>;
          s = s\<lparr>volume_down_button := OnClick volume_down_OnClick (volume_down_button s)\<rparr>;
          s = s\<lparr>volume_down_button := OnLongPress volume_down_OnLongPress (volume_down_button s)\<rparr>
      in s)"

definition AddThing :: "string \<Rightarrow> system \<Rightarrow> system" where
  "AddThing name s = s\<lparr>things := things s @ [name]\<rparr>"

definition InitializeIot :: "system \<Rightarrow> system" where
  "InitializeIot s = AddThing ''Lamp'' (AddThing ''Speaker'' s)"

text \<open>The member initialisers: \<open>panel_io\<close>, \<open>panel\<close> and \<open>display\<close> start as null, the four
  buttons are constructed on their lines; \<open>display_i2c_bus\<close> has no initialiser and keeps
  whatever the memory held.\<close>

definition member_init :: "config \<Rightarrow> system \<Rightarrow> system" where
  "member_init cfg s =
     s\<lparr>panel_io := 0,
       panel := 0,
       display := nullptr,
       boot_button := Button_ctor (BOOT_BUTTON_GPIO cfg),
       touch_button := Button_ctor (TOUCH_BUTTON_GPIO cfg),
       volume_up_button := Button_ctor (VOLUME_UP_BUTTON_GPIO cfg),
       volume_down_button := Button_ctor (VOLUME_DOWN_BUTTON_GPIO cfg)\<rparr>"

definition CompactMl307Board :: "config \<Rightarrow> idf \<Rightarrow> system \<Rightarrow> (fault \<times> system) + system" where
  "CompactMl307Board cfg env s =
     (case InitializeDisplayI2c cfg env (member_init cfg s) of
        Inl f \<Rightarrow> Inl f
      | Inr s1 \<Rightarrow>
         (case InitializeSsd1306Display cfg env s1 of
            Inl f \<Rightarrow> Inl f
          | Inr s2 \<Rightarrow> Inr (InitializeIot (InitializeButtons s2))))"

text \<open>The successive states of the constructor: after the member initialisers and after
  each of the four calls of its body, up to the call that aborts.\<close>

definition constructor_states :: "config \<Rightarrow> idf \<Rightarrow> system \<Rightarrow> system list" where
  "constructor_states cfg env s =
     (let s0 = member_init cfg s in
      case InitializeDisplayI2c cfg env s0 of
        Inl (f, sa) \<Rightarrow> [s0, sa]
      | Inr s1 \<Rightarrow>
         (case InitializeSsd1306Display cfg env s1 of
            Inl (f, sa) \<Rightarrow> [s0, s1, sa]
          | Inr s2 \<Rightarrow>
             [s0, s1, s2, InitializeButtons s2, InitializeIot (InitializeButtons s2)]))"

subsection \<open>Accessors\<close>

definition GetLed :: "config \<Rightarrow> system \<Rightarrow> ptr \<times> system" where
  "GetLed cfg s =
     (static_led,
      case led s of
        None \<Rightarrow> s\<lparr>led := Some \<lparr>led_gpio = BUILTIN_LED_GPIO cfg\<rparr>\<rparr>
      | Some l \<Rightarrow> s)"

definition GetAudioCodec :: "config \<Rightarrow> system \<Rightarrow> ptr \<times> system" where
  "GetAudioCodec cfg s =
     (static_audio_codec,
      case audio_codec s of
        None \<Rightarrow>
          s\<lparr>audio_codec :=
              Some (if AUDIO_I2S_METHOD_SIMPLEX cfg
                    then \<lparr>kind = NoAudioCodecSimplex, codec_args = AUDIO_SIMPLEX_ARGS cfg,
                          output_volume = initial_output_volume cfg\<rparr>
                    else \<lparr>kind = NoAudioCodecDuplex, codec_args = AUDIO_DUPLEX_ARGS cfg,
                          output_volume = initial_output_volume cfg\<rparr>)\<rparr>
      | Some c \<Rightarrow> s)"

definition GetDisplay :: "system \<Rightarrow> ptr" where
  "GetDisplay s = display s"

subsection \<open>Calls through the pointers\<close>

text \<open>Modelled from the spec: \<^verbatim>\<open>output_volume()\<close> and \<^verbatim>\<open>SetOutputVolume\<close> of the absent
  codec classes read and write the volume field of the codec. A call through a pointer
  that holds no codec is the fault \<open>NullPointer\<close>.\<close>

definition codec_output_volume :: "ptr \<Rightarrow> system \<Rightarrow> fault + int" where
  "codec_output_volume p s =
     (case p of
        static_audio_codec \<Rightarrow>
          (case audio_codec s of None \<Rightarrow> Inl NullPointer | Some c \<Rightarrow> Inr (output_volume c))
      | _ \<Rightarrow> Inl NullPointer)"

definition SetOutputVolume :: "ptr \<Rightarrow> int \<Rightarrow> system \<Rightarrow> fault + system" where
  "SetOutputVolume p volume s =
     (case p of
        static_audio_codec \<Rightarrow>
          (case audio_codec s of
             None \<Rightarrow> Inl NullPointer
           | Some c \<Rightarrow> Inr (s\<lparr>audio_codec := Some (c\<lparr>output_volume := volume\<rparr>)\<rparr>))
      | _ \<Rightarrow> Inl NullPointer)"

text \<open>Modelled from the spec: \<^verbatim>\<open>ShowNotification\<close> of the real display shows the text; of
  the stub it is a no-op that succeeds. A call through a pointer that holds no display is
  the fault \<open>NullPointer\<close>.\<close>

definition ShowNotification :: "ptr \<Rightarrow> string \<Rightarrow> system \<Rightarrow> fault + system" where
  "ShowNotification p text s =
     (case p of
        heap_obj a \<Rightarrow>
          (case heap s a of
             None \<Rightarrow> Inl NullPointer
           | Some NoDisplay \<Rightarrow> Inr s
           | Some (OledDisplay d) \<Rightarrow>
               Inr (s\<lparr>heap := (heap s)(a \<mapsto> OledDisplay (d\<lparr>notification := Some text\<rparr>))\<rparr>))
      | _ \<Rightarrow> Inl NullPointer)"

subsection \<open>\<^verbatim>\<open>std::to_string\<close> on an \<^verbatim>\<open>int\<close>\<close>

definition digit_char :: "nat \<Rightarrow> char" where
  "digit_char d = ''0123456789'' ! d"

fun to_string_nat :: "nat \<Rightarrow> string" where
  "to_string_nat n =
     (if n < 10 then [digit_char n] else to_string_nat (n div 10) @ [digit_char (n mod 10)])"

declare to_string_nat.simps [simp del]

definition to_string :: "int \<Rightarrow> string" where
  "to_string i = (if i < 0 then CHR ''-'' # to_string_nat (nat (- i)) else to_string_nat (nat i))"

subsection \<open>The button callbacks\<close>

definition run_volume_up_OnClick :: "config \<Rightarrow> system \<Rightarrow> fault + system" where
  "run_volume_up_OnClick cfg s =
     (let (codec, s1) = GetAudioCodec cfg s in
      case codec_output_volume codec s1 of
        Inl f \<Rightarrow> Inl f
      | Inr v \<Rightarrow>
         (let volume = v + 10;
              volume = (if volume > 100 then 100 else volume)
          in case SetOutputVolume codec volume s1 of
               Inl f \<Rightarrow> Inl f
             | Inr s2 \<Rightarrow> ShowNotification (GetDisplay s2) (VOLUME cfg @ to_string volume) s2))"

definition run_volume_up_OnLongPress :: "config \<Rightarrow> system \<Rightarrow> fault + system" where
  "run_volume_up_OnLongPress cfg s =
     (let (codec, s1) = GetAudioCodec cfg s in
      case SetOutputVolume codec 100 s1 of
        Inl f \<Rightarrow> Inl f
      | Inr s2 \<Rightarrow> ShowNotification (GetDisplay s2) (MAX_VOLUME cfg) s2)"

definition run_volume_down_OnClick :: "config \<Rightarrow> system \<Rightarrow> fault + system" where
  "run_volume_down_OnClick cfg s =
     (let (codec, s1) = GetAudioCodec cfg s in
      case codec_output_volume codec s1 of
        Inl f \<Rightarrow> Inl f
      | Inr v \<Rightarrow>
         (let volume = v - 10;
              volume = (if volume < 0 then 0 else volume)
          in case SetOutputVolume codec volume s1 of
               Inl f \<Rightarrow> Inl f
             | Inr s2 \<Rightarrow> ShowNotification (GetDisplay s2) (VOLUME cfg @ to_string volume) s2))"

definition run_volume_down_OnLongPress :: "config \<Rightarrow> system \<Rightarrow> fault + system" where
  "run_volume_down_OnLongPress cfg s =
     (let (codec, s1) = GetAudioCodec cfg s in
      case SetOutputVolume codec 0 s1 of
        Inl f \<Rightarrow> Inl f
      | Inr s2 \<Rightarrow> ShowNotification (GetDisplay s2) (MUTED cfg) s2)"

text \<open>The three callbacks of the boot and touch buttons call into the \<^verbatim>\<open>Application\<close>
  singleton, which is recorded as the list of calls it has received.\<close>

fun run_callback :: "config \<Rightarrow> callback \<Rightarrow> system \<Rightarrow> fault + system" where
  "run_callback cfg boot_OnClick s = Inr (s\<lparr>application := application s @ [ToggleChatState]\<rparr>)"
| "run_callback cfg touch_OnPressDown s = Inr (s\<lparr>application := application s @ [StartListening]\<rparr>)"
| "run_callback cfg touch_OnPressUp s = Inr (s\<lparr>application := application s @ [StopListening]\<rparr>)"
| "run_callback cfg volume_up_OnClick s = run_volume_up_OnClick cfg s"
| "run_callback cfg volume_up_OnLongPress s = run_volume_up_OnLongPress cfg s"
| "run_callback cfg volume_down_OnClick s = run_volume_down_OnClick cfg s"
| "run_callback cfg volume_down_OnLongPress s = run_volume_down_OnLongPress cfg s"

text \<open>What runs after bring-up: the buttons fire their callbacks and the application calls
  the accessors, in any order; the first fault stops the run.\<close>

datatype operation = Fire callback | Call_GetLed | Call_GetAudioCodec | Call_GetDisplay

fun run_operation :: "config \<Rightarrow> operation \<Rightarrow> system \<Rightarrow> fault + system" where
  "run_operation cfg (Fire cb) s = run_callback cfg cb s"
| "run_operation cfg Call_GetLed s = Inr (snd (GetLed cfg s))"
| "run_operation cfg Call_GetAudioCodec s = Inr (snd (GetAudioCodec cfg s))"
| "run_operation cfg Call_GetDisplay s = Inr s"

fun run :: "config \<Rightarrow> operation list \<Rightarrow> system \<Rightarrow> fault + system" where
  "run cfg [] s = Inr s"
| "run cfg (x # xs) s =
     (case run_operation cfg x s of Inl f \<Rightarrow> Inl f | Inr s' \<Rightarrow> run cfg xs s')"

subsection \<open>Observations on a state\<close>

text \<open>The volume a callback reads through \<^verbatim>\<open>GetAudioCodec()->output_volume()\<close>: that of the
  codec if it has been constructed, that of a freshly constructed codec otherwise.\<close>

definition current_volume :: "config \<Rightarrow> system \<Rightarrow> int" where
  "current_volume cfg s =
     (case audio_codec s of None \<Rightarrow> initial_output_volume cfg | Some c \<Rightarrow> output_volume c)"

definition volume_of :: "system \<Rightarrow> int option" where
  "volume_of s = map_option output_volume (audio_codec s)"

definition display_object :: "system \<Rightarrow> Display option" where
  "display_object s = (case display s of heap_obj a \<Rightarrow> heap s a | _ \<Rightarrow> None)"

definition shown :: "system \<Rightarrow> string option" where
  "shown s = (case display_object s of Some (OledDisplay d) \<Rightarrow> notification d | _ \<Rightarrow> None)"

text \<open>The state after \<^verbatim>\<open>display_ = new ...\<close> for the display \<open>d\<close>.\<close>

definition installed :: "Display \<Rightarrow> system \<Rightarrow> system" where
  "installed d s =
     s\<lparr>heap := (heap s)(brk s \<mapsto> d), brk := brk s + 1, display := heap_obj (brk s)\<rparr>"

definition any_wired :: "system \<Rightarrow> bool" where
  "any_wired s \<longleftrightarrow>
     wired (boot_button s) \<or> wired (touch_button s) \<or>
     wired (volume_up_button s) \<or> wired (volume_down_button s)"

subsection \<open>A concrete board\<close>

definition example_config :: config where
  "example_config =
     \<lparr>DISPLAY_SDA_PIN = 41, DISPLAY_SCL_PIN = 42, DISPLAY_WIDTH = 128, DISPLAY_HEIGHT = 32,
      DISPLAY_MIRROR_X = True, DISPLAY_MIRROR_Y = True,
      BOOT_BUTTON_GPIO = 0, TOUCH_BUTTON_GPIO = 47,
      VOLUME_UP_BUTTON_GPIO = 40, VOLUME_DOWN_BUTTON_GPIO = 39, BUILTIN_LED_GPIO = 48,
      AUDIO_I2S_METHOD_SIMPLEX = True,
      AUDIO_SIMPLEX_ARGS = [16000, 24000, 15, 16, 7, 5, 4, 6],
      AUDIO_DUPLEX_ARGS = [16000, 24000, 5, 4, 7, 6],
      initial_output_volume = 70,
      VOLUME = ''Volume '', MAX_VOLUME = ''Max volume'', MUTED = ''Muted''\<rparr>"

text \<open>Drivers that answer each call with the given code; the handles are 1, 2 and 3.\<close>

definition example_idf :: "esp_err_t \<Rightarrow> esp_err_t \<Rightarrow> esp_err_t \<Rightarrow> esp_err_t \<Rightarrow> esp_err_t \<Rightarrow> esp_err_t \<Rightarrow> idf" where
  "example_idf rc_bus rc_io rc_panel rc_reset rc_init rc_on =
     \<lparr>i2c_new_master_bus = (\<lambda>c. (rc_bus, 1)),
      esp_lcd_new_panel_io_i2c_v2 = (\<lambda>b c. (rc_io, 2)),
      esp_lcd_new_panel_ssd1306 = (\<lambda>io c. (rc_panel, 3)),
      esp_lcd_panel_reset = (\<lambda>p. rc_reset),
      esp_lcd_panel_init = (\<lambda>p. rc_init),
      esp_lcd_panel_disp_on_off = (\<lambda>p on. rc_on)\<rparr>"

definition example_system :: system where
  "example_system =
     \<lparr>display_i2c_bus = 0, panel_io = 0, panel = 0, display = nullptr,
      boot_button = Button_ctor 0, touch_button = Button_ctor 0,
      volume_up_button = Button_ctor 0, volume_down_button = Button_ctor 0,
      heap = Map.empty, brk = 0, led = None, audio_codec = None,
      application = [], things = []\<rparr>"

text \<open>The board after bring-up with the display \<open>d\<close> installed at address 0 and the codec
  at volume \<open>v\<close>.\<close>

definition example_running :: "int \<Rightarrow> Display \<Rightarrow> system" where
  "example_running v d =
     example_system
       \<lparr>display := heap_obj 0, heap := [0 \<mapsto> d], brk := 1,
        audio_codec := Some \<lparr>kind = NoAudioCodecSimplex,
                             codec_args = AUDIO_SIMPLEX_ARGS example_config,
                             output_volume = v\<rparr>\<rparr>"

section \<open>The button state machine\<close>

text \<open>
  Modelled from the spec: the class \<^verbatim>\<open>Button\<close> (\<^verbatim>\<open>button.h\<close>) is not part of the file, so
  the machine that turns the samples of a signal line into events is taken from the
  description of the button state machine. Time is counted in sampling ticks: each tick
  delivers one sample of the line (\<open>True\<close> when it is asserted), and the debounce window and
  the long-press threshold are numbers of ticks.

  The machine keeps the debounced level in its state (\<open>Idle\<close> is released, the two other
  states are pressed), the number \<open>stable\<close> of latest samples in a row that differ from the
  debounced level, and the number \<open>held\<close> of ticks since \<open>Pressed\<close> was entered. A tick first
  advances the long-press timer and then looks at the sample:
  \<^item> a level change is accepted once the new level has been seen for a full debounce window
    (at least one sample);
  \<^item> \<open>Idle\<close> to \<open>Pressed\<close> fires \<open>PressDown\<close>;
  \<^item> in \<open>Pressed\<close>, when the time since entry passes the threshold, \<open>LongPress\<close> fires and
    the state becomes \<open>LongPressFired\<close>;
  \<^item> \<open>Pressed\<close> to \<open>Idle\<close> fires \<open>PressUp\<close>, then \<open>Click\<close>;
  \<^item> \<open>LongPressFired\<close> to \<open>Idle\<close> fires \<open>PressUp\<close> only.

  Where the rules speak of the line being asserted, the debounced level is meant: a release
  that has not yet lasted a full window has not happened for the machine, so the timer runs
  on through it, and the duration of a press is the time from the accepted press to the
  accepted release.
\<close>

datatype event = PressDown | PressUp | Click | LongPress

datatype ButtonState = Idle | Pressed | LongPressFired

record ButtonConfig =
  signal_line :: int
  debounce_window :: nat
  long_press_threshold :: nat

record ButtonMachine =
  button_state :: ButtonState
  stable :: nat
  held :: nat

definition button_initial :: ButtonMachine where
  "button_initial = \<lparr>button_state = Idle, stable = 0, held = 0\<rparr>"

text \<open>Modelled from the spec: the long-press timer of the absent class \<^verbatim>\<open>Button\<close>. The
  threshold is measured from the entry into \<open>Pressed\<close>; \<open>LongPress\<close> fires at the first tick
  at which the time since then is past it, and only from \<open>Pressed\<close>, hence once.\<close>

definition button_timer :: "ButtonConfig \<Rightarrow> ButtonMachine \<Rightarrow> ButtonMachine \<times> event list" where
  "button_timer cfg m =
     (if button_state m = Pressed then
        (if long_press_threshold cfg < held m + 1
         then (m\<lparr>button_state := LongPressFired, held := held m + 1\<rparr>, [LongPress])
         else (m\<lparr>held := held m + 1\<rparr>, []))
      else (m, []))"

text \<open>Modelled from the spec: the debouncing of the absent class \<^verbatim>\<open>Button\<close>. A sample at
  the debounced level clears the count; a sample at the other level adds to it, and the
  change is accepted when the count fills the debounce window.\<close>

definition button_edge :: "ButtonConfig \<Rightarrow> bool \<Rightarrow> ButtonMachine \<Rightarrow> ButtonMachine \<times> event list" where
  "button_edge cfg asserted m =
     (case button_state m of
        Idle \<Rightarrow>
          if asserted then
            (if debounce_window cfg \<le> stable m + 1
             then (m\<lparr>button_state := Pressed, stable := 0, held := 0\<rparr>, [PressDown])
             else (m\<lparr>stable := stable m + 1\<rparr>, []))
          else (m\<lparr>stable := 0\<rparr>, [])
      | Pressed \<Rightarrow>
          if asserted then (m\<lparr>stable := 0\<rparr>, [])
          else
            (if debounce_window cfg \<le> stable m + 1
             then (m\<lparr>button_state := Idle, stable := 0\<rparr>, [PressUp, Click])
             else (m\<lparr>stable := stable m + 1\<rparr>, []))
      | LongPressFired \<Rightarrow>
          if asserted then (m\<lparr>stable := 0\<rparr>, [])
          else
            (if debounce_window cfg \<le> stable m + 1
             then (m\<lparr>button_state := Idle, stable := 0\<rparr>, [PressUp])
             else (m\<lparr>stable := stable m + 1\<rparr>, [])))"

text \<open>Modelled from the spec: one sampling tick of the absent class \<^verbatim>\<open>Button\<close>, the
  timer first and the sample second, with the events of both in that order.\<close>

definition button_step :: "ButtonConfig \<Rightarrow> bool \<Rightarrow> ButtonMachine \<Rightarrow> ButtonMachine \<times> event list" where
  "button_step cfg asserted m =
     (let (m1, e1) = button_timer cfg m;
          (m2, e2) = button_edge cfg asserted m1
      in (m2, e1 @ e2))"

text \<open>The machine after a trace of samples, and the events of each tick.\<close>

fun button_final :: "ButtonConfig \<Rightarrow> ButtonMachine \<Rightarrow> bool list \<Rightarrow> ButtonMachine" where
  "button_final cfg m [] = m"
| "button_final cfg m (x # xs) = button_final cfg (fst (button_step cfg x m)) xs"

fun button_outputs :: "ButtonConfig \<Rightarrow> ButtonMachine \<Rightarrow> bool list \<Rightarrow> event list list" where
  "button_outputs cfg m [] = []"
| "button_outputs cfg m (x # xs) =
     snd (button_step cfg x m) # button_outputs cfg (fst (button_step cfg x m)) xs"

definition button_events :: "ButtonConfig \<Rightarrow> bool list \<Rightarrow> event list" where
  "button_events cfg xs = concat (button_outputs cfg button_initial xs)"

definition button_run :: "ButtonConfig \<Rightarrow> ButtonMachine \<Rightarrow> bool list \<Rightarrow> ButtonMachine \<times> event list" where
  "button_run cfg m xs = (button_final cfg m xs, concat (button_outputs cfg m xs))"

subsection \<open>What the claims speak of\<close>

text \<open>A sequence of events read from a state of the machine is well paired when it is made
  of whole cycles, \<open>PressDown, PressUp, Click\<close> or \<open>PressDown, LongPress, PressUp\<close>, the last
  of which may still be open.\<close>

fun well_paired :: "ButtonState \<Rightarrow> event list \<Rightarrow> bool" where
  "well_paired st [] = True"
| "well_paired Idle (PressDown # es) = well_paired Pressed es"
| "well_paired Pressed (LongPress # es) = well_paired LongPressFired es"
| "well_paired Pressed (PressUp # Click # es) = well_paired Idle es"
| "well_paired LongPressFired (PressUp # es) = well_paired Idle es"
| "well_paired st es = False"

text \<open>The press-release cycles in the events of the ticks: a cycle starts at a tick that
  fires \<open>PressDown\<close> and ends at the next tick that fires \<open>PressUp\<close>; it is returned with its
  duration, the number of ticks from the first to the second, and with its events. The
  argument is the cycle that is open, if any.\<close>

fun press_cycles :: "(nat \<times> event list) option \<Rightarrow> event list list \<Rightarrow> (nat \<times> event list) list" where
  "press_cycles None [] = []"
| "press_cycles None (e # r) =
     (if PressDown \<in> set e then press_cycles (Some (0, e)) r else press_cycles None r)"
| "press_cycles (Some (d, es)) [] = []"
| "press_cycles (Some (d, es)) (e # r) =
     (if PressUp \<in> set e then (Suc d, es @ e) # press_cycles None r
      else press_cycles (Some (Suc d, es @ e)) r)"

text \<open>The open cycle that goes with a state of the machine, and what a closed cycle must
  look like: a click if it lasted no longer than the threshold, a long press otherwise.\<close>

definition coupled :: "ButtonConfig \<Rightarrow> ButtonMachine \<Rightarrow> (nat \<times> event list) option \<Rightarrow> bool" where
  "coupled cfg m acc =
     (case button_state m of
        Idle \<Rightarrow> acc = None
      | Pressed \<Rightarrow> acc = Some (held m, [PressDown]) \<and> held m \<le> long_press_threshold cfg
      | LongPressFired \<Rightarrow>
          (case acc of None \<Rightarrow> False
           | Some (d, es) \<Rightarrow> es = [PressDown, LongPress] \<and> long_press_threshold cfg < d))"

definition classified :: "ButtonConfig \<Rightarrow> nat \<times> event list \<Rightarrow> bool" where
  "classified cfg c =
     (snd c = (if fst c \<le> long_press_threshold cfg then [PressDown, PressUp, Click]
               else [PressDown, LongPress, PressUp]))"

text \<open>Every run of the level \<open>lvl\<close> in the trace is shorter than \<open>w\<close> samples, where \<open>c\<close>
  samples of the run at the head of the trace have been seen already.\<close>

fun short_runs :: "nat \<Rightarrow> bool \<Rightarrow> nat \<Rightarrow> bool list \<Rightarrow> bool" where
  "short_runs w lvl c [] = True"
| "short_runs w lvl c (x # xs) =
     (if x = lvl then Suc c < w \<and> short_runs w lvl (Suc c) xs else short_runs w lvl 0 xs)"

text \<open>A clean press: the line is released for \<open>a\<close> samples, asserted for \<open>l\<close> and released
  for \<open>r\<close>.\<close>

definition press :: "nat \<Rightarrow> nat \<Rightarrow> nat \<Rightarrow> bool list" where
  "press a l r = replicate a False @ replicate l True @ replicate r False"

text \<open>A sequence of clean presses, each given by its three lengths.\<close>

definition presses :: "(nat \<times> nat \<times> nat) list \<Rightarrow> bool list" where
  "presses ps = concat (map (\<lambda>(a, l, r). press a l r) ps)"

definition example_button :: ButtonConfig where
  "example_button = \<lparr>signal_line = 40, debounce_window = 2, long_press_threshold = 5\<rparr>"

section \<open>The volume callbacks\<close>

lemma fst_GetAudioCodec: "fst (GetAudioCodec cfg s) = static_audio_codec"
  by (simp add: GetAudioCodec_def)

lemma GetAudioCodec_reads:
  "codec_output_volume static_audio_codec (snd (GetAudioCodec cfg s)) = Inr (current_volume cfg s)"
  by (simp add: GetAudioCodec_def codec_output_volume_def current_volume_def split: option.splits)

lemma GetAudioCodec_keeps:
  "display (snd (GetAudioCodec cfg s)) = display s"
  "heap (snd (GetAudioCodec cfg s)) = heap s"
  "brk (snd (GetAudioCodec cfg s)) = brk s"
  "led (snd (GetAudioCodec cfg s)) = led s"
  by (simp_all add: GetAudioCodec_def split: option.splits)

lemma SetOutputVolume_after_Get:
  "\<exists>s1. SetOutputVolume static_audio_codec x (snd (GetAudioCodec cfg s)) = Inr s1 \<and>
        volume_of s1 = Some x \<and> display s1 = display s \<and> heap s1 = heap s \<and>
        brk s1 = brk s \<and> led s1 = led s \<and>
        (\<forall>c. audio_codec s = Some c \<longrightarrow> audio_codec s1 = Some (c\<lparr>output_volume := x\<rparr>))"
  by (simp add: SetOutputVolume_def GetAudioCodec_def volume_of_def split: option.splits)

lemma ShowNotification_valid:
  assumes "display s = heap_obj a" and "heap s a = Some d"
  shows "\<exists>s2 d'. ShowNotification (GetDisplay s) t s = Inr s2 \<and>
           audio_codec s2 = audio_codec s \<and> led s2 = led s \<and> brk s2 = brk s \<and>
           display s2 = heap_obj a \<and> heap s2 a = Some d' \<and>
           (d = NoDisplay \<longrightarrow> s2 = s) \<and> (d' = NoDisplay \<longleftrightarrow> d = NoDisplay) \<and>
           (d \<noteq> NoDisplay \<longrightarrow> shown s2 = Some t)"
  using assms
  by (cases d) (simp_all add: ShowNotification_def GetDisplay_def shown_def display_object_def)

lemma set_then_show:
  assumes "display s = heap_obj a" and "heap s a = Some d"
  shows "\<exists>s1 s2 d'.
           SetOutputVolume static_audio_codec x (snd (GetAudioCodec cfg s)) = Inr s1 \<and>
           ShowNotification (GetDisplay s1) t s1 = Inr s2 \<and>
           volume_of s2 = Some x \<and> display s2 = heap_obj a \<and> heap s2 a = Some d' \<and>
           led s2 = led s \<and> brk s2 = brk s \<and>
           (\<forall>c. audio_codec s = Some c \<longrightarrow> audio_codec s2 = Some (c\<lparr>output_volume := x\<rparr>)) \<and>
           (d' = NoDisplay \<longleftrightarrow> d = NoDisplay) \<and>
           (d \<noteq> NoDisplay \<longrightarrow> shown s2 = Some t)"
proof -
  obtain s1 where 1: "SetOutputVolume static_audio_codec x (snd (GetAudioCodec cfg s)) = Inr s1"
    and v: "volume_of s1 = Some x" and k: "display s1 = display s" "heap s1 = heap s"
      "brk s1 = brk s" "led s1 = led s"
      "\<forall>c. audio_codec s = Some c \<longrightarrow> audio_codec s1 = Some (c\<lparr>output_volume := x\<rparr>)"
    using SetOutputVolume_after_Get [of x cfg s] by blast
  have d: "display s1 = heap_obj a" "heap s1 a = Some d"
    using assms k by simp_all
  obtain s2 d' where 2: "ShowNotification (GetDisplay s1) t s1 = Inr s2"
    and c: "audio_codec s2 = audio_codec s1" "led s2 = led s1" "brk s2 = brk s1"
    and p: "display s2 = heap_obj a" "heap s2 a = Some d'" "d' = NoDisplay \<longleftrightarrow> d = NoDisplay"
    and sh: "d \<noteq> NoDisplay \<longrightarrow> shown s2 = Some t"
    using ShowNotification_valid [OF d, of t] by blast
  have "volume_of s2 = Some x"
    using v c by (simp add: volume_of_def)
  then show ?thesis
    using 1 2 p sh c k by auto
qed

lemma run_volume_up_OnClick_eq:
  "run_volume_up_OnClick cfg s =
     (case SetOutputVolume static_audio_codec (min (current_volume cfg s + 10) 100)
             (snd (GetAudioCodec cfg s)) of
        Inl f \<Rightarrow> Inl f
      | Inr s2 \<Rightarrow>
          ShowNotification (GetDisplay s2)
            (VOLUME cfg @ to_string (min (current_volume cfg s + 10) 100)) s2)"
proof -
  obtain p s1 where g: "GetAudioCodec cfg s = (p, s1)"
    by (cases "GetAudioCodec cfg s")
  have p: "p = static_audio_codec"
    using g fst_GetAudioCodec [of cfg s] by simp
  have v: "codec_output_volume static_audio_codec s1 = Inr (current_volume cfg s)"
    using GetAudioCodec_reads [of cfg s] g by simp
  show ?thesis
    unfolding run_volume_up_OnClick_def g p
    by (cases "90 < current_volume cfg s") (simp_all add: v Let_def min_def cong: sum.case_cong)
qed

lemma run_volume_down_OnClick_eq:
  "run_volume_down_OnClick cfg s =
     (case SetOutputVolume static_audio_codec (max (current_volume cfg s - 10) 0)
             (snd (GetAudioCodec cfg s)) of
        Inl f \<Rightarrow> Inl f
      | Inr s2 \<Rightarrow>
          ShowNotification (GetDisplay s2)
            (VOLUME cfg @ to_string (max (current_volume cfg s - 10) 0)) s2)"
proof -
  obtain p s1 where g: "GetAudioCodec cfg s = (p, s1)"
    by (cases "GetAudioCodec cfg s")
  have p: "p = static_audio_codec"
    using g fst_GetAudioCodec [of cfg s] by simp
  have v: "codec_output_volume static_audio_codec s1 = Inr (current_volume cfg s)"
    using GetAudioCodec_reads [of cfg s] g by simp
  show ?thesis
    unfolding run_volume_down_OnClick_def g p
    by (cases "current_volume cfg s < 10") (simp_all add: v Let_def max_def cong: sum.case_cong)
qed

lemma run_volume_up_OnLongPress_eq:
  "run_volume_up_OnLongPress cfg s =
     (case SetOutputVolume static_audio_codec 100 (snd (GetAudioCodec cfg s)) of
        Inl f \<Rightarrow> Inl f
      | Inr s2 \<Rightarrow> ShowNotification (GetDisplay s2) (MAX_VOLUME cfg) s2)"
proof -
  obtain p s1 where g: "GetAudioCodec cfg s = (p, s1)"
    by (cases "GetAudioCodec cfg s")
  have p: "p = static_audio_codec"
    using g fst_GetAudioCodec [of cfg s] by simp
  show ?thesis
    unfolding run_volume_up_OnLongPress_def g p by simp
qed

lemma run_volume_down_OnLongPress_eq:
  "run_volume_down_OnLongPress cfg s =
     (case SetOutputVolume static_audio_codec 0 (snd (GetAudioCodec cfg s)) of
        Inl f \<Rightarrow> Inl f
      | Inr s2 \<Rightarrow> ShowNotification (GetDisplay s2) (MUTED cfg) s2)"
proof -
  obtain p s1 where g: "GetAudioCodec cfg s = (p, s1)"
    by (cases "GetAudioCodec cfg s")
  have p: "p = static_audio_codec"
    using g fst_GetAudioCodec [of cfg s] by simp
  show ?thesis
    unfolding run_volume_down_OnLongPress_def g p by simp
qed

lemma to_string_100: "to_string 100 = ''100''"
  by (simp add: to_string_def to_string_nat.simps digit_char_def)

lemma to_string_0: "to_string 0 = ''0''"
  by (simp add: to_string_def to_string_nat.simps digit_char_def)

text \<open>
  Claim C2. With a display installed and a current volume \<open>v\<close> between 0 and 100, the click
  callback of the volume-up button sets the codec volume to \<open>min (v + 10) 100\<close> and then asks
  the display for the notification made of the label \<open>VOLUME\<close> and the decimal form of that
  new volume; the click callback of the volume-down button does the same with
  \<open>max (v - 10) 0\<close>. Both calls succeed, the codec then holds the new volume, and a real
  display shows exactly that text.
\<close>

theorem volume_click_clamped:
  assumes "current_volume cfg s = v" and "0 \<le> v" and "v \<le> 100"
    and "display s = heap_obj a" and "heap s a = Some d"
  shows "(\<exists>s1 s2.
            SetOutputVolume static_audio_codec (min (v + 10) 100) (snd (GetAudioCodec cfg s)) = Inr s1 \<and>
            ShowNotification (GetDisplay s1) (VOLUME cfg @ to_string (min (v + 10) 100)) s1 = Inr s2 \<and>
            run_callback cfg volume_up_OnClick s = Inr s2 \<and>
            volume_of s2 = Some (min (v + 10) 100) \<and>
            (d \<noteq> NoDisplay \<longrightarrow> shown s2 = Some (VOLUME cfg @ to_string (min (v + 10) 100)))) \<and>
         (\<exists>s1 s2.
            SetOutputVolume static_audio_codec (max (v - 10) 0) (snd (GetAudioCodec cfg s)) = Inr s1 \<and>
            ShowNotification (GetDisplay s1) (VOLUME cfg @ to_string (max (v - 10) 0)) s1 = Inr s2 \<and>
            run_callback cfg volume_down_OnClick s = Inr s2 \<and>
            volume_of s2 = Some (max (v - 10) 0) \<and>
            (d \<noteq> NoDisplay \<longrightarrow> shown s2 = Some (VOLUME cfg @ to_string (max (v - 10) 0))))"
proof
  obtain s1 s2 where
    "SetOutputVolume static_audio_codec (min (v + 10) 100) (snd (GetAudioCodec cfg s)) = Inr s1"
    "ShowNotification (GetDisplay s1) (VOLUME cfg @ to_string (min (v + 10) 100)) s1 = Inr s2"
    "volume_of s2 = Some (min (v + 10) 100)"
    "d \<noteq> NoDisplay \<longrightarrow> shown s2 = Some (VOLUME cfg @ to_string (min (v + 10) 100))"
    using set_then_show [OF assms(4,5), of "min (v + 10) 100" cfg
        "VOLUME cfg @ to_string (min (v + 10) 100)"] by blast
  moreover from this have "run_callback cfg volume_up_OnClick s = Inr s2"
    using assms(1) by (simp add: run_volume_up_OnClick_eq)
  ultimately show "\<exists>s1 s2.
      SetOutputVolume static_audio_codec (min (v + 10) 100) (snd (GetAudioCodec cfg s)) = Inr s1 \<and>
      ShowNotification (GetDisplay s1) (VOLUME cfg @ to_string (min (v + 10) 100)) s1 = Inr s2 \<and>
      run_callback cfg volume_up_OnClick s = Inr s2 \<and>
      volume_of s2 = Some (min (v + 10) 100) \<and>
      (d \<noteq> NoDisplay \<longrightarrow> shown s2 = Some (VOLUME cfg @ to_string (min (v + 10) 100)))"
    by blast
next
  obtain s1 s2 where
    "SetOutputVolume static_audio_codec (max (v - 10) 0) (snd (GetAudioCodec cfg s)) = Inr s1"
    "ShowNotification (GetDisplay s1) (VOLUME cfg @ to_string (max (v - 10) 0)) s1 = Inr s2"
    "volume_of s2 = Some (max (v - 10) 0)"
    "d \<noteq> NoDisplay \<longrightarrow> shown s2 = Some (VOLUME cfg @ to_string (max (v - 10) 0))"
    using set_then_show [OF assms(4,5), of "max (v - 10) 0" cfg
        "VOLUME cfg @ to_string (max (v - 10) 0)"] by blast
  moreover from this have "run_callback cfg volume_down_OnClick s = Inr s2"
    using assms(1) by (simp add: run_volume_down_OnClick_eq)
  ultimately show "\<exists>s1 s2.
      SetOutputVolume static_audio_codec (max (v - 10) 0) (snd (GetAudioCodec cfg s)) = Inr s1 \<and>
      ShowNotification (GetDisplay s1) (VOLUME cfg @ to_string (max (v - 10) 0)) s1 = Inr s2 \<and>
      run_callback cfg volume_down_OnClick s = Inr s2 \<and>
      volume_of s2 = Some (max (v - 10) 0) \<and>
      (d \<noteq> NoDisplay \<longrightarrow> shown s2 = Some (VOLUME cfg @ to_string (max (v - 10) 0)))"
    by blast
qed

theorem volume_click_clamped_witness:
  "(\<exists>s2. run_callback example_config volume_up_OnClick
            (example_running 95 (new_OledDisplay example_config 2 3)) = Inr s2 \<and>
         volume_of s2 = Some 100 \<and> shown s2 = Some ''Volume 100'') \<and>
   (\<exists>s2. run_callback example_config volume_down_OnClick
            (example_running 5 (new_OledDisplay example_config 2 3)) = Inr s2 \<and>
         volume_of s2 = Some 0 \<and> shown s2 = Some ''Volume 0'')"
proof
  let ?d = "new_OledDisplay example_config 2 3"
  have v: "current_volume example_config (example_running 95 ?d) = 95"
    by (simp add: current_volume_def example_running_def example_system_def)
  have p: "display (example_running 95 ?d) = heap_obj 0" "heap (example_running 95 ?d) 0 = Some ?d"
    by (simp_all add: example_running_def example_system_def)
  obtain s2 where
    "run_callback example_config volume_up_OnClick (example_running 95 ?d) = Inr s2"
    "volume_of s2 = Some (min (95 + 10) 100)"
    "?d \<noteq> NoDisplay \<longrightarrow>
       shown s2 = Some (VOLUME example_config @ to_string (min (95 + 10) 100))"
    using volume_click_clamped [OF v _ _ p] by auto
  then show "\<exists>s2. run_callback example_config volume_up_OnClick (example_running 95 ?d) = Inr s2 \<and>
      volume_of s2 = Some 100 \<and> shown s2 = Some ''Volume 100''"
    by (simp add: to_string_100 example_config_def new_OledDisplay_def)
next
  let ?d = "new_OledDisplay example_config 2 3"
  have v: "current_volume example_config (example_running 5 ?d) = 5"
    by (simp add: current_volume_def example_running_def example_system_def)
  have p: "display (example_running 5 ?d) = heap_obj 0" "heap (example_running 5 ?d) 0 = Some ?d"
    by (simp_all add: example_running_def example_system_def)
  obtain s2 where
    "run_callback example_config volume_down_OnClick (example_running 5 ?d) = Inr s2"
    "volume_of s2 = Some (max (5 - 10) 0)"
    "?d \<noteq> NoDisplay \<longrightarrow>
       shown s2 = Some (VOLUME example_config @ to_string (max (5 - 10) 0))"
    using volume_click_clamped [OF v _ _ p] by auto
  then show "\<exists>s2. run_callback example_config volume_down_OnClick (example_running 5 ?d) = Inr s2 \<and>
      volume_of s2 = Some 0 \<and> shown s2 = Some ''Volume 0''"
    by (simp add: to_string_0 example_config_def new_OledDisplay_def)
qed

text \<open>
  Claim C6. With a display installed, whatever the volume was, the long-press callback of the
  volume-up button sets the codec volume to 100 and asks the display for the fixed text
  \<open>MAX_VOLUME\<close>; the long-press callback of the volume-down button sets it to 0 and asks
  for the fixed text \<open>MUTED\<close>. Both calls succeed and a real display shows that text.
\<close>

theorem volume_long_press_extremes:
  assumes "display s = heap_obj a" and "heap s a = Some d"
  shows "(\<exists>s1 s2.
            SetOutputVolume static_audio_codec 100 (snd (GetAudioCodec cfg s)) = Inr s1 \<and>
            ShowNotification (GetDisplay s1) (MAX_VOLUME cfg) s1 = Inr s2 \<and>
            run_callback cfg volume_up_OnLongPress s = Inr s2 \<and>
            volume_of s2 = Some 100 \<and>
            (d \<noteq> NoDisplay \<longrightarrow> shown s2 = Some (MAX_VOLUME cfg))) \<and>
         (\<exists>s1 s2.
            SetOutputVolume static_audio_codec 0 (snd (GetAudioCodec cfg s)) = Inr s1 \<and>
            ShowNotification (GetDisplay s1) (MUTED cfg) s1 = Inr s2 \<and>
            run_callback cfg volume_down_OnLongPress s = Inr s2 \<and>
            volume_of s2 = Some 0 \<and>
            (d \<noteq> NoDisplay \<longrightarrow> shown s2 = Some (MUTED cfg)))"
proof
  obtain s1 s2 where
    "SetOutputVolume static_audio_codec 100 (snd (GetAudioCodec cfg s)) = Inr s1"
    "ShowNotification (GetDisplay s1) (MAX_VOLUME cfg) s1 = Inr s2"
    "volume_of s2 = Some 100"
    "d \<noteq> NoDisplay \<longrightarrow> shown s2 = Some (MAX_VOLUME cfg)"
    using set_then_show [OF assms, of 100 cfg "MAX_VOLUME cfg"] by blast
  moreover from this have "run_callback cfg volume_up_OnLongPress s = Inr s2"
    by (simp add: run_volume_up_OnLongPress_eq)
  ultimately show "\<exists>s1 s2.
      SetOutputVolume static_audio_codec 100 (snd (GetAudioCodec cfg s)) = Inr s1 \<and>
      ShowNotification (GetDisplay s1) (MAX_VOLUME cfg) s1 = Inr s2 \<and>
      run_callback cfg volume_up_OnLongPress s = Inr s2 \<and>
      volume_of s2 = Some 100 \<and>
      (d \<noteq> NoDisplay \<longrightarrow> shown s2 = Some (MAX_VOLUME cfg))"
    by blast
next
  obtain s1 s2 where
    "SetOutputVolume static_audio_codec 0 (snd (GetAudioCodec cfg s)) = Inr s1"
    "ShowNotification (GetDisplay s1) (MUTED cfg) s1 = Inr s2"
    "volume_of s2 = Some 0"
    "d \<noteq> NoDisplay \<longrightarrow> shown s2 = Some (MUTED cfg)"
    using set_then_show [OF assms, of 0 cfg "MUTED cfg"] by blast
  moreover from this have "run_callback cfg volume_down_OnLongPress s = Inr s2"
    by (simp add: run_volume_down_OnLongPress_eq)
  ultimately show "\<exists>s1 s2.
      SetOutputVolume static_audio_codec 0 (snd (GetAudioCodec cfg s)) = Inr s1 \<and>
      ShowNotification (GetDisplay s1) (MUTED cfg) s1 = Inr s2 \<and>
      run_callback cfg volume_down_OnLongPress s = Inr s2 \<and>
      volume_of s2 = Some 0 \<and>
      (d \<noteq> NoDisplay \<longrightarrow> shown s2 = Some (MUTED cfg))"
    by blast
qed

theorem volume_long_press_extremes_witness:
  "(\<exists>s2. run_callback example_config volume_up_OnLongPress
            (example_running 35 (new_OledDisplay example_config 2 3)) = Inr s2 \<and>
         volume_of s2 = Some 100 \<and> shown s2 = Some ''Max volume'') \<and>
   (\<exists>s2. run_callback example_config volume_down_OnLongPress
            (example_running 35 (new_OledDisplay example_config 2 3)) = Inr s2 \<and>
         volume_of s2 = Some 0 \<and> shown s2 = Some ''Muted'')"
proof -
  let ?d = "new_OledDisplay example_config 2 3"
  have p: "display (example_running 35 ?d) = heap_obj 0" "heap (example_running 35 ?d) 0 = Some ?d"
    by (simp_all add: example_running_def example_system_def)
  have n: "?d \<noteq> NoDisplay"
    by (simp add: new_OledDisplay_def)
  have m: "MAX_VOLUME example_config = ''Max volume''" "MUTED example_config = ''Muted''"
    by (simp_all add: example_config_def)
  show ?thesis
    using volume_long_press_extremes [OF p, of example_config] n unfolding m by blast
qed

section \<open>Bring-up\<close>

lemma InitializeDisplayI2c_eq:
  assumes "i2c_new_master_bus env (bus_config cfg) = (rc, bus)"
  shows "InitializeDisplayI2c cfg env s =
           (if rc \<noteq> ESP_OK then Inl (Abort ''i2c_new_master_bus'' rc, s\<lparr>display_i2c_bus := bus\<rparr>)
            else Inr (s\<lparr>display_i2c_bus := bus\<rparr>))"
  using assms by (simp add: InitializeDisplayI2c_def ESP_ERROR_CHECK_def)

lemma InitializeSsd1306Display_eq:
  assumes "esp_lcd_new_panel_io_i2c_v2 env (display_i2c_bus s) io_config = (rc2, io)"
    and "esp_lcd_new_panel_ssd1306 env io (panel_config cfg) = (rc3, pnl)"
  shows "InitializeSsd1306Display cfg env s =
     (if rc2 \<noteq> ESP_OK then Inl (Abort ''esp_lcd_new_panel_io_i2c_v2'' rc2, s\<lparr>panel_io := io\<rparr>)
      else if rc3 \<noteq> ESP_OK then
        Inl (Abort ''esp_lcd_new_panel_ssd1306'' rc3, s\<lparr>panel_io := io, panel := pnl\<rparr>)
      else if esp_lcd_panel_reset env pnl \<noteq> ESP_OK then
        Inl (Abort ''esp_lcd_panel_reset'' (esp_lcd_panel_reset env pnl),
             s\<lparr>panel_io := io, panel := pnl\<rparr>)
      else if esp_lcd_panel_init env pnl \<noteq> ESP_OK then
        Inr (installed NoDisplay (s\<lparr>panel_io := io, panel := pnl\<rparr>))
      else if esp_lcd_panel_disp_on_off env pnl True \<noteq> ESP_OK then
        Inl (Abort ''esp_lcd_panel_disp_on_off'' (esp_lcd_panel_disp_on_off env pnl True),
             s\<lparr>panel_io := io, panel := pnl\<rparr>)
      else Inr (installed (new_OledDisplay cfg io pnl) (s\<lparr>panel_io := io, panel := pnl\<rparr>)))"
  using assms
  by (simp add: InitializeSsd1306Display_def ESP_ERROR_CHECK_def new_def installed_def)


lemma not_wired_member_init: "\<not> any_wired (member_init cfg s)"
  by (simp add: any_wired_def wired_def member_init_def Button_ctor_def)

lemma any_wired_handles:
  "any_wired (s\<lparr>display_i2c_bus := x\<rparr>) = any_wired s"
  "any_wired (s\<lparr>panel_io := y\<rparr>) = any_wired s"
  "any_wired (s\<lparr>panel := z\<rparr>) = any_wired s"
  "any_wired (installed d s) = any_wired s"
  by (simp_all add: any_wired_def installed_def)

lemma installed_display:
  "display (installed d s) = heap_obj (brk s)"
  "heap (installed d s) (brk s) = Some d"
  "display_object (installed d s) = Some d"
  by (simp_all add: installed_def display_object_def)

lemma InitializeButtons_keeps:
  "display (InitializeButtons s) = display s"
  "heap (InitializeButtons s) = heap s"
  "brk (InitializeButtons s) = brk s"
  "led (InitializeButtons s) = led s"
  "audio_codec (InitializeButtons s) = audio_codec s"
  "things (InitializeButtons s) = things s"
  "application (InitializeButtons s) = application s"
  "panel (InitializeButtons s) = panel s"
  by (simp_all add: InitializeButtons_def Let_def)

lemma InitializeButtons_registers:
  "on_click (boot_button (InitializeButtons s)) = Some boot_OnClick"
  "on_press_down (touch_button (InitializeButtons s)) = Some touch_OnPressDown"
  "on_press_up (touch_button (InitializeButtons s)) = Some touch_OnPressUp"
  "on_click (volume_up_button (InitializeButtons s)) = Some volume_up_OnClick"
  "on_long_press (volume_up_button (InitializeButtons s)) = Some volume_up_OnLongPress"
  "on_click (volume_down_button (InitializeButtons s)) = Some volume_down_OnClick"
  "on_long_press (volume_down_button (InitializeButtons s)) = Some volume_down_OnLongPress"
  by (simp_all add: InitializeButtons_def Let_def OnClick_def OnPressDown_def OnPressUp_def
      OnLongPress_def)

lemma any_wired_InitializeButtons: "any_wired (InitializeButtons s)"
  by (simp add: any_wired_def wired_def InitializeButtons_registers)

lemma InitializeIot_keeps:
  "display (InitializeIot s) = display s"
  "heap (InitializeIot s) = heap s"
  "brk (InitializeIot s) = brk s"
  "led (InitializeIot s) = led s"
  "audio_codec (InitializeIot s) = audio_codec s"
  "boot_button (InitializeIot s) = boot_button s"
  "touch_button (InitializeIot s) = touch_button s"
  "volume_up_button (InitializeIot s) = volume_up_button s"
  "volume_down_button (InitializeIot s) = volume_down_button s"
  "application (InitializeIot s) = application s"
  "panel (InitializeIot s) = panel s"
  "things (InitializeIot s) = things s @ [''Speaker'', ''Lamp'']"
  by (simp_all add: InitializeIot_def AddThing_def)

lemma member_init_keeps:
  "display (member_init cfg s) = nullptr"
  "heap (member_init cfg s) = heap s"
  "brk (member_init cfg s) = brk s"
  "led (member_init cfg s) = led s"
  "audio_codec (member_init cfg s) = audio_codec s"
  "things (member_init cfg s) = things s"
  "application (member_init cfg s) = application s"
  by (simp_all add: member_init_def)

text \<open>The constructor, flattened along the answers of the drivers.\<close>

lemma CompactMl307Board_eq:
  assumes "i2c_new_master_bus env (bus_config cfg) = (rc1, bus)"
    and "esp_lcd_new_panel_io_i2c_v2 env bus io_config = (rc2, io)"
    and "esp_lcd_new_panel_ssd1306 env io (panel_config cfg) = (rc3, pnl)"
  shows "CompactMl307Board cfg env s =
     (if rc1 \<noteq> ESP_OK then
        Inl (Abort ''i2c_new_master_bus'' rc1, (member_init cfg s)\<lparr>display_i2c_bus := bus\<rparr>)
      else if rc2 \<noteq> ESP_OK then
        Inl (Abort ''esp_lcd_new_panel_io_i2c_v2'' rc2,
             (member_init cfg s)\<lparr>display_i2c_bus := bus, panel_io := io\<rparr>)
      else if rc3 \<noteq> ESP_OK then
        Inl (Abort ''esp_lcd_new_panel_ssd1306'' rc3,
             (member_init cfg s)\<lparr>display_i2c_bus := bus, panel_io := io, panel := pnl\<rparr>)
      else if esp_lcd_panel_reset env pnl \<noteq> ESP_OK then
        Inl (Abort ''esp_lcd_panel_reset'' (esp_lcd_panel_reset env pnl),
             (member_init cfg s)\<lparr>display_i2c_bus := bus, panel_io := io, panel := pnl\<rparr>)
      else if esp_lcd_panel_init env pnl \<noteq> ESP_OK then
        Inr (InitializeIot (InitializeButtons (installed NoDisplay
               ((member_init cfg s)\<lparr>display_i2c_bus := bus, panel_io := io, panel := pnl\<rparr>))))
      else if esp_lcd_panel_disp_on_off env pnl True \<noteq> ESP_OK then
        Inl (Abort ''esp_lcd_panel_disp_on_off'' (esp_lcd_panel_disp_on_off env pnl True),
             (member_init cfg s)\<lparr>display_i2c_bus := bus, panel_io := io, panel := pnl\<rparr>)
      else
        Inr (InitializeIot (InitializeButtons (installed (new_OledDisplay cfg io pnl)
               ((member_init cfg s)\<lparr>display_i2c_bus := bus, panel_io := io, panel := pnl\<rparr>)))))"
proof -
  let ?s1 = "(member_init cfg s)\<lparr>display_i2c_bus := bus\<rparr>"
  have b: "display_i2c_bus ?s1 = bus" by simp
  have 1: "InitializeDisplayI2c cfg env (member_init cfg s) =
      (if rc1 \<noteq> ESP_OK then Inl (Abort ''i2c_new_master_bus'' rc1, ?s1) else Inr ?s1)"
    by (rule InitializeDisplayI2c_eq [OF assms(1)])
  have 2: "InitializeSsd1306Display cfg env ?s1 = 
     (if rc2 \<noteq> ESP_OK then Inl (Abort ''esp_lcd_new_panel_io_i2c_v2'' rc2, ?s1\<lparr>panel_io := io\<rparr>)
      else if rc3 \<noteq> ESP_OK then
        Inl (Abort ''esp_lcd_new_panel_ssd1306'' rc3, ?s1\<lparr>panel_io := io, panel := pnl\<rparr>)
      else if esp_lcd_panel_reset env pnl \<noteq> ESP_OK then
        Inl (Abort ''esp_lcd_panel_reset'' (esp_lcd_panel_reset env pnl),
             ?s1\<lparr>panel_io := io, panel := pnl\<rparr>)
      else if esp_lcd_panel_init env pnl \<noteq> ESP_OK then
        Inr (installed NoDisplay (?s1\<lparr>panel_io := io, panel := pnl\<rparr>))
      else if esp_lcd_panel_disp_on_off env pnl True \<noteq> ESP_OK then
        Inl (Abort ''esp_lcd_panel_disp_on_off'' (esp_lcd_panel_disp_on_off env pnl True),
             ?s1\<lparr>panel_io := io, panel := pnl\<rparr>)
      else Inr (installed (new_OledDisplay cfg io pnl) (?s1\<lparr>panel_io := io, panel := pnl\<rparr>)))"
    by (rule InitializeSsd1306Display_eq) (simp_all add: assms)
  show ?thesis
    unfolding CompactMl307Board_def 1 by (simp add: 2)
qed


lemma GetLed_keeps:
  "display (snd (GetLed cfg s)) = display s"
  "heap (snd (GetLed cfg s)) = heap s"
  "brk (snd (GetLed cfg s)) = brk s"
  "audio_codec (snd (GetLed cfg s)) = audio_codec s"
  by (simp_all add: GetLed_def split: option.splits)

text \<open>What every operation after bring-up keeps: the display pointer and the kind of object
  it points to, the allocation mark, a constructed LED, and a constructed codec up to its
  volume.\<close>

lemma run_callback_keeps:
  assumes "display s = heap_obj a" and "heap s a = Some d"
  shows "\<exists>s' d'. run_callback cfg cb s = Inr s' \<and> display s' = heap_obj a \<and>
           heap s' a = Some d' \<and> (d' = NoDisplay \<longleftrightarrow> d = NoDisplay) \<and>
           brk s' = brk s \<and> led s' = led s \<and>
           (\<forall>c. audio_codec s = Some c \<longrightarrow>
              (\<exists>v. audio_codec s' = Some (c\<lparr>output_volume := v\<rparr>)))"
proof -
  have k: "\<exists>s' d'. (case SetOutputVolume static_audio_codec x (snd (GetAudioCodec cfg s)) of
                      Inl f \<Rightarrow> Inl f
                    | Inr s2 \<Rightarrow> ShowNotification (GetDisplay s2) t s2) = Inr s' \<and>
           display s' = heap_obj a \<and>
           heap s' a = Some d' \<and> (d' = NoDisplay \<longleftrightarrow> d = NoDisplay) \<and>
           brk s' = brk s \<and> led s' = led s \<and>
           (\<forall>c. audio_codec s = Some c \<longrightarrow>
              (\<exists>v. audio_codec s' = Some (c\<lparr>output_volume := v\<rparr>)))" for x t
  proof -
    obtain s1 s2 d' where
      "SetOutputVolume static_audio_codec x (snd (GetAudioCodec cfg s)) = Inr s1"
      "ShowNotification (GetDisplay s1) t s1 = Inr s2"
      "display s2 = heap_obj a" "heap s2 a = Some d'" "led s2 = led s" "brk s2 = brk s"
      "\<forall>c. audio_codec s = Some c \<longrightarrow> audio_codec s2 = Some (c\<lparr>output_volume := x\<rparr>)"
      "d' = NoDisplay \<longleftrightarrow> d = NoDisplay"
      using set_then_show [OF assms, of x cfg t] by blast
    then show ?thesis by auto
  qed
  have same: "\<forall>c. audio_codec s = Some c \<longrightarrow> (\<exists>v. audio_codec s = Some (c\<lparr>output_volume := v\<rparr>))"
  proof (intro allI impI)
    fix c assume "audio_codec s = Some c"
    then have "audio_codec s = Some (c\<lparr>output_volume := output_volume c\<rparr>)" by simp
    then show "\<exists>v. audio_codec s = Some (c\<lparr>output_volume := v\<rparr>)" by blast
  qed
  show ?thesis
  proof (cases cb)
    case volume_up_OnClick
    then show ?thesis using k by (simp add: run_volume_up_OnClick_eq)
  next
    case volume_up_OnLongPress
    then show ?thesis using k by (simp add: run_volume_up_OnLongPress_eq)
  next
    case volume_down_OnClick
    then show ?thesis using k by (simp add: run_volume_down_OnClick_eq)
  next
    case volume_down_OnLongPress
    then show ?thesis using k by (simp add: run_volume_down_OnLongPress_eq)
  next
    case boot_OnClick
    then show ?thesis using assms same by simp
  next
    case touch_OnPressDown
    then show ?thesis using assms same by simp
  next
    case touch_OnPressUp
    then show ?thesis using assms same by simp
  qed
qed

lemma run_operation_keeps:
  assumes "display s = heap_obj a" and "heap s a = Some d"
  shows "\<exists>s' d'. run_operation cfg x s = Inr s' \<and> display s' = heap_obj a \<and>
           heap s' a = Some d' \<and> (d' = NoDisplay \<longleftrightarrow> d = NoDisplay) \<and>
           brk s' = brk s \<and>
           (\<forall>l. led s = Some l \<longrightarrow> led s' = Some l) \<and>
           (\<forall>c. audio_codec s = Some c \<longrightarrow>
              (\<exists>v. audio_codec s' = Some (c\<lparr>output_volume := v\<rparr>)))"
proof -
  have same: "\<forall>c. audio_codec s = Some c \<longrightarrow> (\<exists>v. audio_codec s = Some (c\<lparr>output_volume := v\<rparr>))"
  proof (intro allI impI)
    fix c assume "audio_codec s = Some c"
    then have "audio_codec s = Some (c\<lparr>output_volume := output_volume c\<rparr>)" by simp
    then show "\<exists>v. audio_codec s = Some (c\<lparr>output_volume := v\<rparr>)" by blast
  qed
  show ?thesis
  proof (cases x)
    case (Fire cb)
    then show ?thesis using run_callback_keeps [OF assms, of cfg cb] by auto
  next
    case Call_GetLed
    have "\<forall>l. led s = Some l \<longrightarrow> led (snd (GetLed cfg s)) = Some l"
      by (simp add: GetLed_def)
    then show ?thesis using assms same Call_GetLed by (simp add: GetLed_keeps)
  next
    case Call_GetAudioCodec
    have "\<forall>c. audio_codec s = Some c \<longrightarrow> snd (GetAudioCodec cfg s) = s"
      by (simp add: GetAudioCodec_def)
    then show ?thesis using assms same Call_GetAudioCodec by (auto simp: GetAudioCodec_keeps)
  next
    case Call_GetDisplay
    then show ?thesis using assms same by simp
  qed
qed

lemma run_keeps:
  assumes "display s = heap_obj a" and "heap s a = Some d"
  shows "\<exists>s' d'. run cfg xs s = Inr s' \<and> display s' = heap_obj a \<and>
           heap s' a = Some d' \<and> (d' = NoDisplay \<longleftrightarrow> d = NoDisplay) \<and>
           brk s' = brk s \<and>
           (\<forall>l. led s = Some l \<longrightarrow> led s' = Some l) \<and>
           (\<forall>c. audio_codec s = Some c \<longrightarrow>
              (\<exists>v. audio_codec s' = Some (c\<lparr>output_volume := v\<rparr>)))"
  using assms
proof (induction xs arbitrary: s d)
  case Nil
  have "\<forall>c. audio_codec s = Some c \<longrightarrow> (\<exists>v. audio_codec s = Some (c\<lparr>output_volume := v\<rparr>))"
  proof (intro allI impI)
    fix c assume "audio_codec s = Some c"
    then have "audio_codec s = Some (c\<lparr>output_volume := output_volume c\<rparr>)" by simp
    then show "\<exists>v. audio_codec s = Some (c\<lparr>output_volume := v\<rparr>)" by blast
  qed
  with Nil show ?case by simp
next
  case (Cons x xs)
  obtain s1 d1 where 1: "run_operation cfg x s = Inr s1" "display s1 = heap_obj a"
      "heap s1 a = Some d1" "d1 = NoDisplay \<longleftrightarrow> d = NoDisplay" "brk s1 = brk s"
      "\<forall>l. led s = Some l \<longrightarrow> led s1 = Some l"
      "\<forall>c. audio_codec s = Some c \<longrightarrow> (\<exists>v. audio_codec s1 = Some (c\<lparr>output_volume := v\<rparr>))"
    using run_operation_keeps [OF Cons.prems, of cfg x] by blast
  obtain s' d' where 2: "run cfg xs s1 = Inr s'" "display s' = heap_obj a"
      "heap s' a = Some d'" "d' = NoDisplay \<longleftrightarrow> d1 = NoDisplay" "brk s' = brk s1"
      "\<forall>l. led s1 = Some l \<longrightarrow> led s' = Some l"
      "\<forall>c. audio_codec s1 = Some c \<longrightarrow> (\<exists>v. audio_codec s' = Some (c\<lparr>output_volume := v\<rparr>))"
    using Cons.IH [OF 1(2,3)] by blast
  have c: "\<forall>c. audio_codec s = Some c \<longrightarrow> (\<exists>v. audio_codec s' = Some (c\<lparr>output_volume := v\<rparr>))"
  proof (intro allI impI)
    fix c assume "audio_codec s = Some c"
    then obtain v where "audio_codec s1 = Some (c\<lparr>output_volume := v\<rparr>)"
      using 1(7) by blast
    then obtain w where "audio_codec s' = Some (c\<lparr>output_volume := v, output_volume := w\<rparr>)"
      using 2(7) by blast
    then have "audio_codec s' = Some (c\<lparr>output_volume := w\<rparr>)" by simp
    then show "\<exists>v. audio_codec s' = Some (c\<lparr>output_volume := v\<rparr>)" by blast
  qed
  show ?case
    using 1 2 c by simp
qed

text \<open>
  Claim C4. Let \<open>rc1\<close>, \<open>rc2\<close>, \<open>rc3\<close> and \<open>rc4\<close> be the codes that bus creation, panel
  I/O creation, panel driver creation and panel reset return. If any of them is not
  \<open>ESP_OK\<close>, the constructor aborts with the diagnostic of the first call that failed, and
  in the state at the abort no button has a callback, no display has been constructed and
  nothing has been registered or sent to the application. In particular a failed bus
  creation aborts with no button wired.
\<close>

theorem fatal_steps_abort:
  assumes "i2c_new_master_bus env (bus_config cfg) = (rc1, bus)"
    and "esp_lcd_new_panel_io_i2c_v2 env bus io_config = (rc2, io)"
    and "esp_lcd_new_panel_ssd1306 env io (panel_config cfg) = (rc3, pnl)"
    and "esp_lcd_panel_reset env pnl = rc4"
    and "rc1 \<noteq> ESP_OK \<or> rc2 \<noteq> ESP_OK \<or> rc3 \<noteq> ESP_OK \<or> rc4 \<noteq> ESP_OK"
  shows "\<exists>sa. CompactMl307Board cfg env s =
                Inl (if rc1 \<noteq> ESP_OK then Abort ''i2c_new_master_bus'' rc1
                     else if rc2 \<noteq> ESP_OK then Abort ''esp_lcd_new_panel_io_i2c_v2'' rc2
                     else if rc3 \<noteq> ESP_OK then Abort ''esp_lcd_new_panel_ssd1306'' rc3
                     else Abort ''esp_lcd_panel_reset'' rc4, sa) \<and>
              \<not> any_wired sa \<and> display sa = nullptr \<and> heap sa = heap s \<and>
              things sa = things s \<and> application sa = application s"
  using assms(4,5)
  by (auto simp: CompactMl307Board_eq [OF assms(1-3)] any_wired_handles not_wired_member_init
      member_init_keeps)

theorem fatal_steps_abort_witness:
  "\<exists>sa. CompactMl307Board example_config (example_idf (- 1) 0 0 0 0 0) example_system =
           Inl (Abort ''i2c_new_master_bus'' (- 1), sa) \<and> \<not> any_wired sa"
proof -
  let ?env = "example_idf (- 1) 0 0 0 0 0"
  have 1: "i2c_new_master_bus ?env (bus_config example_config) = (- 1, 1)"
    and 2: "esp_lcd_new_panel_io_i2c_v2 ?env 1 io_config = (0, 2)"
    and 3: "esp_lcd_new_panel_ssd1306 ?env 2 (panel_config example_config) = (0, 3)"
    and 4: "esp_lcd_panel_reset ?env 3 = 0"
    by (simp_all add: example_idf_def)
  have 5: "- 1 \<noteq> ESP_OK \<or> 0 \<noteq> ESP_OK \<or> 0 \<noteq> ESP_OK \<or> 0 \<noteq> ESP_OK"
    by (simp add: ESP_OK_def)
  from fatal_steps_abort [OF 1 2 3 4 5, of example_system] show ?thesis
    by (auto simp: ESP_OK_def)
qed

text \<open>
  Claim C3. If the four fatal calls succeed and panel initialisation fails, the constructor
  returns (it does not abort) with the stub display installed, the buttons wired and the
  things registered. In that state \<open>GetDisplay()->ShowNotification(t)\<close> succeeds for every
  text and changes nothing, and every later run of callbacks and accessor calls succeeds
  with the stub still installed.
\<close>

theorem panel_init_failure_degrades:
  assumes "i2c_new_master_bus env (bus_config cfg) = (ESP_OK, bus)"
    and "esp_lcd_new_panel_io_i2c_v2 env bus io_config = (ESP_OK, io)"
    and "esp_lcd_new_panel_ssd1306 env io (panel_config cfg) = (ESP_OK, pnl)"
    and "esp_lcd_panel_reset env pnl = ESP_OK"
    and "esp_lcd_panel_init env pnl \<noteq> ESP_OK"
  shows "\<exists>s'. CompactMl307Board cfg env s = Inr s' \<and>
              display_object s' = Some NoDisplay \<and>
              any_wired s' \<and> things s' = things s @ [''Speaker'', ''Lamp''] \<and>
              (\<forall>text. ShowNotification (GetDisplay s') text s' = Inr s') \<and>
              (\<forall>ops. \<exists>s''. run cfg ops s' = Inr s'' \<and> display_object s'' = Some NoDisplay)"
proof -
  let ?s3 = "(member_init cfg s)\<lparr>display_i2c_bus := bus, panel_io := io, panel := pnl\<rparr>"
  let ?s' = "InitializeIot (InitializeButtons (installed NoDisplay ?s3))"
  have c: "CompactMl307Board cfg env s = Inr ?s'"
    using assms(4,5) by (simp add: CompactMl307Board_eq [OF assms(1-3)])
  have d: "display ?s' = heap_obj (brk s)" "heap ?s' (brk s) = Some NoDisplay"
    by (simp_all add: InitializeIot_keeps InitializeButtons_keeps installed_def member_init_keeps)
  have o: "display_object ?s' = Some NoDisplay"
    using d by (simp add: display_object_def)
  have w: "any_wired ?s'"
    using any_wired_InitializeButtons [of "installed NoDisplay ?s3"]
    by (simp add: any_wired_def InitializeIot_keeps)
  have t: "things ?s' = things s @ [''Speaker'', ''Lamp'']"
    by (simp add: InitializeIot_keeps InitializeButtons_keeps installed_def member_init_keeps)
  have n: "ShowNotification (GetDisplay ?s') t ?s' = Inr ?s'" for t
    using ShowNotification_valid [OF d, of t] by auto
  have r: "\<exists>s''. run cfg ops ?s' = Inr s'' \<and> display_object s'' = Some NoDisplay" for ops
    using run_keeps [OF d, of cfg ops] by (auto simp: display_object_def)
  show ?thesis
    using c o w t n r by blast
qed

theorem panel_init_failure_degrades_witness:
  "\<exists>s'. CompactMl307Board example_config (example_idf 0 0 0 0 (- 1) 0) example_system = Inr s' \<and>
         display_object s' = Some NoDisplay \<and>
         ShowNotification (GetDisplay s') ''Volume 80'' s' = Inr s' \<and>
         (\<exists>s''. run example_config [Fire volume_up_OnClick, Call_GetDisplay] s' = Inr s'')"
proof -
  let ?env = "example_idf 0 0 0 0 (- 1) 0"
  have 1: "i2c_new_master_bus ?env (bus_config example_config) = (ESP_OK, 1)"
    and 2: "esp_lcd_new_panel_io_i2c_v2 ?env 1 io_config = (ESP_OK, 2)"
    and 3: "esp_lcd_new_panel_ssd1306 ?env 2 (panel_config example_config) = (ESP_OK, 3)"
    and 4: "esp_lcd_panel_reset ?env 3 = ESP_OK"
    and 5: "esp_lcd_panel_init ?env 3 \<noteq> ESP_OK"
    by (simp_all add: example_idf_def ESP_OK_def)
  from panel_init_failure_degrades [OF 1 2 3 4 5, of example_system] show ?thesis
    by blast
qed

lemma constructor_states_nonempty: "constructor_states cfg env s \<noteq> []"
  by (simp add: constructor_states_def Let_def split: sum.splits prod.splits)

text \<open>
  Claim C5. In every execution of the constructor, each of its successive states in which
  some button has a callback has a display pointer that points to a constructed display.
  The list of states ends with the state the constructor returns, or with the state at the
  abort, where no button has a callback; and \<open>InitializeButtons\<close> touches neither the
  display pointer nor the store.
\<close>

theorem display_before_buttons:
  "(\<forall>st \<in> set (constructor_states cfg env s).
       any_wired st \<longrightarrow> (\<exists>a d. display st = heap_obj a \<and> heap st a = Some d)) \<and>
   (\<forall>s'. CompactMl307Board cfg env s = Inr s' \<longrightarrow>
       s' = last (constructor_states cfg env s) \<and> any_wired s') \<and>
   (\<forall>f sa. CompactMl307Board cfg env s = Inl (f, sa) \<longrightarrow>
       sa = last (constructor_states cfg env s) \<and> \<not> any_wired sa) \<and>
   (\<forall>st. display (InitializeButtons st) = display st \<and> heap (InitializeButtons st) = heap st)"
proof -
  obtain rc1 bus where 1: "i2c_new_master_bus env (bus_config cfg) = (rc1, bus)"
    by (cases "i2c_new_master_bus env (bus_config cfg)")
  obtain rc2 io where 2: "esp_lcd_new_panel_io_i2c_v2 env bus io_config = (rc2, io)"
    by (cases "esp_lcd_new_panel_io_i2c_v2 env bus io_config")
  obtain rc3 pnl where 3: "esp_lcd_new_panel_ssd1306 env io (panel_config cfg) = (rc3, pnl)"
    by (cases "esp_lcd_new_panel_ssd1306 env io (panel_config cfg)")
  let ?s0 = "member_init cfg s"
  let ?s1 = "?s0\<lparr>display_i2c_bus := bus\<rparr>"
  have b: "display_i2c_bus ?s1 = bus" by simp
  have i: "InitializeDisplayI2c cfg env ?s0 =
      (if rc1 \<noteq> ESP_OK then Inl (Abort ''i2c_new_master_bus'' rc1, ?s1) else Inr ?s1)"
    by (rule InitializeDisplayI2c_eq [OF 1])
  note j = InitializeSsd1306Display_eq [of env ?s1 rc2 io cfg rc3 pnl, unfolded b, OF 2 3]
  have w0: "\<not> any_wired ?s0" by (rule not_wired_member_init)
  have A: "\<forall>st \<in> set (constructor_states cfg env s).
       any_wired st \<longrightarrow> (\<exists>a d. display st = heap_obj a \<and> heap st a = Some d)"
    unfolding constructor_states_def Let_def i
    using w0
    by (simp add: j any_wired_handles InitializeButtons_keeps InitializeIot_keeps installed_def)
  have B: "\<forall>s'. CompactMl307Board cfg env s = Inr s' \<longrightarrow>
       s' = last (constructor_states cfg env s) \<and> any_wired s'"
    unfolding constructor_states_def CompactMl307Board_def Let_def i
    using any_wired_InitializeButtons
    by (auto simp: j any_wired_def InitializeIot_keeps)
  have C: "\<forall>f sa. CompactMl307Board cfg env s = Inl (f, sa) \<longrightarrow>
       sa = last (constructor_states cfg env s) \<and> \<not> any_wired sa"
    unfolding constructor_states_def CompactMl307Board_def Let_def i
    using w0
    by (auto simp: j any_wired_handles split: if_splits)
  show ?thesis
    using A B C by (simp add: InitializeButtons_keeps)
qed

theorem display_before_buttons_witness:
  "\<exists>s'. CompactMl307Board example_config (example_idf 0 0 0 0 0 0) example_system = Inr s' \<and>
         s' \<in> set (constructor_states example_config (example_idf 0 0 0 0 0 0) example_system) \<and>
         any_wired s' \<and> (\<exists>a d. display s' = heap_obj a \<and> heap s' a = Some d)"
proof -
  let ?env = "example_idf 0 0 0 0 0 0"
  have 1: "i2c_new_master_bus ?env (bus_config example_config) = (0, 1)"
    and 2: "esp_lcd_new_panel_io_i2c_v2 ?env 1 io_config = (0, 2)"
    and 3: "esp_lcd_new_panel_ssd1306 ?env 2 (panel_config example_config) = (0, 3)"
    by (simp_all add: example_idf_def)
  have "\<exists>s'. CompactMl307Board example_config ?env example_system = Inr s'"
    unfolding CompactMl307Board_eq [OF 1 2 3] by (simp add: ESP_OK_def example_idf_def)
  then obtain s' where c: "CompactMl307Board example_config ?env example_system = Inr s'" ..
  have "s' = last (constructor_states example_config ?env example_system) \<and> any_wired s'"
    using display_before_buttons [of example_config ?env example_system] c by blast
  then have l: "s' = last (constructor_states example_config ?env example_system)"
    and w: "any_wired s'"
    by blast+
  have m: "s' \<in> set (constructor_states example_config ?env example_system)"
    unfolding l by (rule last_in_set) (rule constructor_states_nonempty)
  have "\<exists>a d. display s' = heap_obj a \<and> heap s' a = Some d"
    using display_before_buttons [of example_config ?env example_system] m w by blast
  then show ?thesis
    using c m w by blast
qed

text \<open>
  Claim C10. In the state a completed constructor returns, \<open>GetDisplay\<close> returns a pointer
  to a constructed display: the stub if panel initialisation failed, the OLED display built
  on the two panel handles otherwise. After any run of callbacks and accessor calls
  \<open>GetDisplay\<close> still returns that pointer, and it still points to a display of the same
  kind.
\<close>

theorem GetDisplay_never_null:
  assumes "CompactMl307Board cfg env s = Inr s'"
  shows "\<exists>a d. GetDisplay s' = heap_obj a \<and> heap s' a = Some d \<and>
           d = (if esp_lcd_panel_init env (panel s') \<noteq> ESP_OK then NoDisplay
                else new_OledDisplay cfg (panel_io s') (panel s')) \<and>
           (\<forall>ops. \<exists>s'' d'. run cfg ops s' = Inr s'' \<and> GetDisplay s'' = heap_obj a \<and>
                      heap s'' a = Some d' \<and> (d' = NoDisplay \<longleftrightarrow> d = NoDisplay))"
proof -
  obtain rc1 bus where 1: "i2c_new_master_bus env (bus_config cfg) = (rc1, bus)"
    by (cases "i2c_new_master_bus env (bus_config cfg)")
  obtain rc2 io where 2: "esp_lcd_new_panel_io_i2c_v2 env bus io_config = (rc2, io)"
    by (cases "esp_lcd_new_panel_io_i2c_v2 env bus io_config")
  obtain rc3 pnl where 3: "esp_lcd_new_panel_ssd1306 env io (panel_config cfg) = (rc3, pnl)"
    by (cases "esp_lcd_new_panel_ssd1306 env io (panel_config cfg)")
  let ?s3 = "(member_init cfg s)\<lparr>display_i2c_bus := bus, panel_io := io, panel := pnl\<rparr>"
  let ?d = "if esp_lcd_panel_init env pnl \<noteq> ESP_OK then NoDisplay else new_OledDisplay cfg io pnl"
  have s': "s' = InitializeIot (InitializeButtons (installed ?d ?s3))"
    using assms unfolding CompactMl307Board_eq [OF 1 2 3] by (simp split: if_splits)
  have p: "panel s' = pnl" "panel_io s' = io"
    unfolding s' by (simp_all add: InitializeIot_def AddThing_def InitializeButtons_def Let_def installed_def)
  have d: "display s' = heap_obj (brk s)" "heap s' (brk s) = Some ?d"
    unfolding s'
    by (simp_all add: InitializeIot_keeps InitializeButtons_keeps installed_def member_init_keeps)
  have r: "\<exists>s'' d'. run cfg ops s' = Inr s'' \<and> GetDisplay s'' = heap_obj (brk s) \<and>
                      heap s'' (brk s) = Some d' \<and> (d' = NoDisplay \<longleftrightarrow> ?d = NoDisplay)" for ops
    using run_keeps [OF d, of cfg ops] unfolding GetDisplay_def by blast
  show ?thesis
    using d r unfolding p GetDisplay_def by blast
qed

theorem GetDisplay_never_null_witness:
  "\<exists>s' a. CompactMl307Board example_config (example_idf 0 0 0 0 0 0) example_system = Inr s' \<and>
         GetDisplay s' = heap_obj a \<and>
         heap s' a = Some (new_OledDisplay example_config 2 3)"
proof -
  let ?env = "example_idf 0 0 0 0 0 0"
  have 1: "i2c_new_master_bus ?env (bus_config example_config) = (0, 1)"
    and 2: "esp_lcd_new_panel_io_i2c_v2 ?env 1 io_config = (0, 2)"
    and 3: "esp_lcd_new_panel_ssd1306 ?env 2 (panel_config example_config) = (0, 3)"
    by (simp_all add: example_idf_def)
  have "\<exists>s'. CompactMl307Board example_config ?env example_system = Inr s'"
    unfolding CompactMl307Board_eq [OF 1 2 3] by (simp add: ESP_OK_def example_idf_def)
  then obtain s' where c: "CompactMl307Board example_config ?env example_system = Inr s'" ..
  have p: "panel s' = 3" "panel_io s' = 2"
    using c unfolding CompactMl307Board_eq [OF 1 2 3]
    by (auto simp: ESP_OK_def example_idf_def InitializeIot_def
        AddThing_def InitializeButtons_def Let_def installed_def)
  have i: "esp_lcd_panel_init ?env 3 = ESP_OK"
    by (simp add: example_idf_def ESP_OK_def)
  show ?thesis
    using GetDisplay_never_null [OF c] c unfolding p i by auto
qed

section \<open>The accessors\<close>

lemma CompactMl307Board_display:
  assumes "CompactMl307Board cfg env s = Inr s'"
  shows "\<exists>d. display s' = heap_obj (brk s) \<and> heap s' (brk s) = Some d"
proof -
  obtain rc1 bus where 1: "i2c_new_master_bus env (bus_config cfg) = (rc1, bus)"
    by (cases "i2c_new_master_bus env (bus_config cfg)")
  obtain rc2 io where 2: "esp_lcd_new_panel_io_i2c_v2 env bus io_config = (rc2, io)"
    by (cases "esp_lcd_new_panel_io_i2c_v2 env bus io_config")
  obtain rc3 pnl where 3: "esp_lcd_new_panel_ssd1306 env io (panel_config cfg) = (rc3, pnl)"
    by (cases "esp_lcd_new_panel_ssd1306 env io (panel_config cfg)")
  show ?thesis
    using assms unfolding CompactMl307Board_eq [OF 1 2 3]
    by (auto simp: InitializeIot_keeps InitializeButtons_keeps installed_def member_init_keeps
        split: if_splits)
qed

text \<open>
  Claim C7, as the code has it. \<open>GetLed\<close> and \<open>GetAudioCodec\<close> return the address of their
  function-local static on every call; a call that finds the static not yet constructed
  constructs it, and a call that finds it constructed leaves the whole state as it is, so a
  second call in a row changes nothing. \<open>GetDisplay\<close> constructs nothing: it returns the
  member that the constructor has set, and neither of the other accessors changes it. In
  the state a completed constructor returns that member already points to a constructed
  display; through any run of callbacks and accessor calls from there, \<open>GetDisplay\<close> returns
  the same pointer, a constructed LED stays as it is, and a constructed codec changes in its
  volume only.
\<close>

theorem accessors_same_instance:
  "fst (GetLed cfg s) = static_led \<and>
   fst (GetAudioCodec cfg s) = static_audio_codec \<and>
   (led s = None \<longrightarrow> led (snd (GetLed cfg s)) = Some \<lparr>led_gpio = BUILTIN_LED_GPIO cfg\<rparr>) \<and>
   (led s \<noteq> None \<longrightarrow> snd (GetLed cfg s) = s) \<and>
   (audio_codec s = None \<longrightarrow>
      (\<exists>c. audio_codec (snd (GetAudioCodec cfg s)) = Some c \<and>
           output_volume c = initial_output_volume cfg \<and>
           kind c = (if AUDIO_I2S_METHOD_SIMPLEX cfg then NoAudioCodecSimplex
                     else NoAudioCodecDuplex))) \<and>
   (audio_codec s \<noteq> None \<longrightarrow> snd (GetAudioCodec cfg s) = s) \<and>
   snd (GetLed cfg (snd (GetLed cfg s))) = snd (GetLed cfg s) \<and>
   snd (GetAudioCodec cfg (snd (GetAudioCodec cfg s))) = snd (GetAudioCodec cfg s) \<and>
   GetDisplay (snd (GetLed cfg s)) = GetDisplay s \<and>
   GetDisplay (snd (GetAudioCodec cfg s)) = GetDisplay s \<and>
   (\<forall>env s0 ops. CompactMl307Board cfg env s0 = Inr s \<longrightarrow>
      (\<exists>a d. GetDisplay s = heap_obj a \<and> heap s a = Some d) \<and>
      (\<exists>s'. run cfg ops s = Inr s' \<and> GetDisplay s' = GetDisplay s \<and>
            (\<forall>l. led s = Some l \<longrightarrow> led s' = Some l) \<and>
            (\<forall>c. audio_codec s = Some c \<longrightarrow>
               (\<exists>v. audio_codec s' = Some (c\<lparr>output_volume := v\<rparr>)))))"
proof -
  have a: "fst (GetLed cfg s) = static_led" "fst (GetAudioCodec cfg s) = static_audio_codec"
    by (simp_all add: GetLed_def GetAudioCodec_def)
  have b: "led s = None \<longrightarrow> led (snd (GetLed cfg s)) = Some \<lparr>led_gpio = BUILTIN_LED_GPIO cfg\<rparr>"
    "led s \<noteq> None \<longrightarrow> snd (GetLed cfg s) = s"
    by (auto simp: GetLed_def)
  have c: "audio_codec s = None \<longrightarrow>
      (\<exists>c. audio_codec (snd (GetAudioCodec cfg s)) = Some c \<and>
           output_volume c = initial_output_volume cfg \<and>
           kind c = (if AUDIO_I2S_METHOD_SIMPLEX cfg then NoAudioCodecSimplex
                     else NoAudioCodecDuplex))"
    "audio_codec s \<noteq> None \<longrightarrow> snd (GetAudioCodec cfg s) = s"
    by (auto simp: GetAudioCodec_def)
  have d: "snd (GetLed cfg (snd (GetLed cfg s))) = snd (GetLed cfg s)"
    by (cases "led s") (simp_all add: GetLed_def)
  have e: "snd (GetAudioCodec cfg (snd (GetAudioCodec cfg s))) = snd (GetAudioCodec cfg s)"
    by (cases "audio_codec s") (simp_all add: GetAudioCodec_def)
  have f: "GetDisplay (snd (GetLed cfg s)) = GetDisplay s"
    "GetDisplay (snd (GetAudioCodec cfg s)) = GetDisplay s"
    by (simp_all add: GetDisplay_def GetLed_keeps GetAudioCodec_keeps)
  have g: "(\<exists>a d. GetDisplay s = heap_obj a \<and> heap s a = Some d) \<and>
           (\<exists>s'. run cfg ops s = Inr s' \<and> GetDisplay s' = GetDisplay s \<and>
            (\<forall>l. led s = Some l \<longrightarrow> led s' = Some l) \<and>
            (\<forall>c. audio_codec s = Some c \<longrightarrow>
               (\<exists>v. audio_codec s' = Some (c\<lparr>output_volume := v\<rparr>))))"
    if h: "CompactMl307Board cfg env s0 = Inr s" for env s0 ops
  proof -
    obtain x where x: "display s = heap_obj (brk s0)" "heap s (brk s0) = Some x"
      using CompactMl307Board_display [OF h] by blast
    show ?thesis
      using run_keeps [OF x, of cfg ops] x unfolding GetDisplay_def by auto
  qed
  show ?thesis
    using a b c d e f g by blast
qed

theorem accessors_same_instance_witness:
  "fst (GetLed example_config example_system) = static_led \<and>
   led (snd (GetLed example_config example_system)) = Some \<lparr>led_gpio = 48\<rparr> \<and>
   snd (GetLed example_config (snd (GetLed example_config example_system))) =
     snd (GetLed example_config example_system) \<and>
   (\<exists>c. audio_codec (snd (GetAudioCodec example_config example_system)) = Some c \<and>
        output_volume c = 70 \<and> kind c = NoAudioCodecSimplex)"
proof -
  have n: "led example_system = None" "audio_codec example_system = None"
    by (simp_all add: example_system_def)
  have k: "BUILTIN_LED_GPIO example_config = 48" "initial_output_volume example_config = 70"
    "AUDIO_I2S_METHOD_SIMPLEX example_config"
    by (simp_all add: example_config_def)
  show ?thesis
    using accessors_same_instance [of example_config example_system] n k by auto
qed

text \<open>
  Claim C7 as stated fails for \<open>GetDisplay\<close>: in the state the constructor returns, before
  any accessor has been called, the LED and the codec are not constructed yet, but the
  display is, and \<open>GetDisplay\<close> already returns its address.
\<close>

theorem GetDisplay_not_lazy_counterexample:
  "\<not> isl (CompactMl307Board example_config (example_idf 0 0 0 0 0 0) example_system) \<and>
   led (projr (CompactMl307Board example_config (example_idf 0 0 0 0 0 0) example_system)) = None \<and>
   audio_codec (projr (CompactMl307Board example_config (example_idf 0 0 0 0 0 0) example_system)) = None \<and>
   GetDisplay (projr (CompactMl307Board example_config (example_idf 0 0 0 0 0 0) example_system)) =
     heap_obj 0 \<and>
   heap (projr (CompactMl307Board example_config (example_idf 0 0 0 0 0 0) example_system)) 0 =
     Some (new_OledDisplay example_config 2 3)"
proof -
  let ?env = "example_idf 0 0 0 0 0 0"
  have 1: "i2c_new_master_bus ?env (bus_config example_config) = (0, 1)"
    and 2: "esp_lcd_new_panel_io_i2c_v2 ?env 1 io_config = (0, 2)"
    and 3: "esp_lcd_new_panel_ssd1306 ?env 2 (panel_config example_config) = (0, 3)"
    by (simp_all add: example_idf_def)
  show ?thesis
    unfolding CompactMl307Board_eq [OF 1 2 3]
    by (simp add: ESP_OK_def example_idf_def GetDisplay_def InitializeIot_keeps
        InitializeButtons_keeps installed_def member_init_keeps example_system_def)
qed

section \<open>Properties of the button state machine\<close>

lemma button_step_Idle:
  assumes "button_state m = Idle"
  shows "button_step cfg x m =
     (if x then
        (if debounce_window cfg \<le> stable m + 1
         then (m\<lparr>button_state := Pressed, stable := 0, held := 0\<rparr>, [PressDown])
         else (m\<lparr>stable := stable m + 1\<rparr>, []))
      else (m\<lparr>stable := 0\<rparr>, []))"
  using assms by (simp add: button_step_def button_timer_def button_edge_def)

lemma button_step_Pressed:
  assumes "button_state m = Pressed"
  shows "button_step cfg x m =
     (if long_press_threshold cfg < held m + 1 then
        (if x then (m\<lparr>button_state := LongPressFired, held := held m + 1, stable := 0\<rparr>, [LongPress])
         else if debounce_window cfg \<le> stable m + 1
         then (m\<lparr>button_state := Idle, held := held m + 1, stable := 0\<rparr>, [LongPress, PressUp])
         else (m\<lparr>button_state := LongPressFired, held := held m + 1, stable := stable m + 1\<rparr>,
               [LongPress]))
      else
        (if x then (m\<lparr>held := held m + 1, stable := 0\<rparr>, [])
         else if debounce_window cfg \<le> stable m + 1
         then (m\<lparr>held := held m + 1, button_state := Idle, stable := 0\<rparr>, [PressUp, Click])
         else (m\<lparr>held := held m + 1, stable := stable m + 1\<rparr>, [])))"
  using assms by (simp add: button_step_def button_timer_def button_edge_def)

lemma button_step_LongPressFired:
  assumes "button_state m = LongPressFired"
  shows "button_step cfg x m =
     (if x then (m\<lparr>stable := 0\<rparr>, [])
      else if debounce_window cfg \<le> stable m + 1
      then (m\<lparr>button_state := Idle, stable := 0\<rparr>, [PressUp])
      else (m\<lparr>stable := stable m + 1\<rparr>, []))"
  using assms by (simp add: button_step_def button_timer_def button_edge_def)

lemma well_paired_outputs:
  "well_paired (button_state m) (concat (button_outputs cfg m xs))"
proof (induction xs arbitrary: m)
  case Nil
  show ?case by simp
next
  case (Cons x xs)
  show ?case
  proof (cases "button_state m")
    case Idle
    show ?thesis
      using Cons.IH [of "fst (button_step cfg x m)"]
      by (simp add: button_step_Idle [OF Idle] Idle split: if_splits)
  next
    case Pressed
    show ?thesis
      using Cons.IH [of "fst (button_step cfg x m)"]
      by (simp add: button_step_Pressed [OF Pressed] Pressed split: if_splits)
  next
    case LongPressFired
    show ?thesis
      using Cons.IH [of "fst (button_step cfg x m)"]
      by (simp add: button_step_LongPressFired [OF LongPressFired] LongPressFired split: if_splits)
  qed
qed

lemma press_cycles_classified:
  assumes "coupled cfg m acc"
  shows "\<forall>c \<in> set (press_cycles acc (button_outputs cfg m xs)). classified cfg c"
  using assms
proof (induction xs arbitrary: m acc)
  case Nil
  show ?case by (cases acc) auto
next
  case (Cons x xs)
  let ?m = "fst (button_step cfg x m)"
  show ?case
  proof (cases "button_state m")
    case Idle
    then have acc: "acc = None" using Cons.prems by (simp add: coupled_def)
    show ?thesis
    proof (cases "x \<and> debounce_window cfg \<le> stable m + 1")
      case True
      then have s: "button_step cfg x m = (m\<lparr>button_state := Pressed, stable := 0, held := 0\<rparr>, [PressDown])"
        by (simp add: button_step_Idle [OF Idle])
      have "coupled cfg ?m (Some (0, [PressDown]))" by (simp add: s coupled_def)
      from Cons.IH [OF this] show ?thesis by (simp add: s acc)
    next
      case False
      then have s: "snd (button_step cfg x m) = []" "button_state ?m = Idle"
        by (auto simp: button_step_Idle [OF Idle] Idle)
      have "coupled cfg ?m None" by (simp add: s coupled_def)
      from Cons.IH [OF this] show ?thesis by (simp add: s acc)
    qed
  next
    case Pressed
    then have acc: "acc = Some (held m, [PressDown])" and h: "held m \<le> long_press_threshold cfg"
      using Cons.prems by (simp_all add: coupled_def)
    consider (a) "snd (button_step cfg x m) = [LongPress]" "button_state ?m = LongPressFired"
           "long_press_threshold cfg < held m + 1"
      | (b) "snd (button_step cfg x m) = [LongPress, PressUp]" "button_state ?m = Idle"
           "long_press_threshold cfg < held m + 1"
      | (c) "snd (button_step cfg x m) = [PressUp, Click]" "button_state ?m = Idle"
           "held m + 1 \<le> long_press_threshold cfg"
      | (d) "snd (button_step cfg x m) = []" "button_state ?m = Pressed" "held ?m = held m + 1"
           "held m + 1 \<le> long_press_threshold cfg"
      by (cases x; cases "debounce_window cfg \<le> stable m + 1";
          cases "long_press_threshold cfg < held m + 1")
         (simp_all add: button_step_Pressed [OF Pressed] Pressed)
    then show ?thesis
    proof cases
      case a
      have "coupled cfg ?m (Some (Suc (held m), [PressDown, LongPress]))"
        using a by (simp add: coupled_def)
      from Cons.IH [OF this] show ?thesis using a by (simp add: acc)
    next
      case b
      have "coupled cfg ?m None" using b by (simp add: coupled_def)
      from Cons.IH [OF this] show ?thesis using b by (simp add: acc classified_def)
    next
      case c
      have "coupled cfg ?m None" using c by (simp add: coupled_def)
      from Cons.IH [OF this] show ?thesis using c by (simp add: acc classified_def)
    next
      case d
      have "coupled cfg ?m (Some (Suc (held m), [PressDown]))" using d by (simp add: coupled_def)
      from Cons.IH [OF this] show ?thesis using d by (simp add: acc)
    qed
  next
    case LongPressFired
    then obtain d where acc: "acc = Some (d, [PressDown, LongPress])" and h: "long_press_threshold cfg < d"
      using Cons.prems by (auto simp: coupled_def split: option.splits)
    consider (a) "snd (button_step cfg x m) = [PressUp]" "button_state ?m = Idle"
      | (b) "snd (button_step cfg x m) = []" "button_state ?m = LongPressFired"
      by (cases x; cases "debounce_window cfg \<le> stable m + 1")
         (simp_all add: button_step_LongPressFired [OF LongPressFired] LongPressFired)
    then show ?thesis
    proof cases
      case a
      have "coupled cfg ?m None" using a by (simp add: coupled_def)
      from Cons.IH [OF this] show ?thesis using a h by (simp add: acc classified_def)
    next
      case b
      have "coupled cfg ?m (Some (Suc d, [PressDown, LongPress]))" using b h by (simp add: coupled_def)
      from Cons.IH [OF this] show ?thesis using b by (simp add: acc)
    qed
  qed
qed


lemma button_run_Nil: "button_run cfg m [] = (m, [])"
  by (simp add: button_run_def)

lemma button_run_Cons:
  "button_run cfg m (x # xs) =
     (fst (button_run cfg (fst (button_step cfg x m)) xs),
      snd (button_step cfg x m) @ snd (button_run cfg (fst (button_step cfg x m)) xs))"
  by (simp add: button_run_def)

lemma button_final_append:
  "button_final cfg m (xs @ ys) = button_final cfg (button_final cfg m xs) ys"
  by (induction xs arbitrary: m) simp_all

lemma button_outputs_append:
  "button_outputs cfg m (xs @ ys) =
     button_outputs cfg m xs @ button_outputs cfg (button_final cfg m xs) ys"
  by (induction xs arbitrary: m) simp_all

lemma button_run_append:
  "button_run cfg m (xs @ ys) =
     (fst (button_run cfg (fst (button_run cfg m xs)) ys),
      snd (button_run cfg m xs) @ snd (button_run cfg (fst (button_run cfg m xs)) ys))"
  by (simp add: button_run_def button_final_append button_outputs_append)

lemma run_then:
  assumes "button_run cfg m xs = (m1, e1)" and "button_run cfg m1 ys = (m2, e2)"
  shows "button_run cfg m (xs @ ys) = (m2, e1 @ e2)"
  using assms by (simp add: button_run_append)

lemma run_one:
  assumes "button_step cfg x m = (m1, e1)"
  shows "button_run cfg m [x] = (m1, e1)"
  using assms by (simp add: button_run_Cons button_run_Nil)

text \<open>Phases of a clean press.\<close>

lemma idle_released:
  "button_run cfg \<lparr>button_state = Idle, stable = 0, held = h\<rparr> (replicate n False) =
     (\<lparr>button_state = Idle, stable = 0, held = h\<rparr>, [])"
  by (induction n) (simp_all add: button_run_Nil button_run_Cons button_step_Idle)

lemma idle_asserted_below:
  assumes "c + n < max 1 (debounce_window cfg)"
  shows "button_run cfg \<lparr>button_state = Idle, stable = c, held = h\<rparr> (replicate n True) =
     (\<lparr>button_state = Idle, stable = c + n, held = h\<rparr>, [])"
  using assms
proof (induction n arbitrary: c)
  case 0
  show ?case by (simp add: button_run_Nil)
next
  case (Suc n)
  have "\<not> debounce_window cfg \<le> c + 1" using Suc.prems by simp
  then have s: "button_step cfg True \<lparr>button_state = Idle, stable = c, held = h\<rparr> =
      (\<lparr>button_state = Idle, stable = Suc c, held = h\<rparr>, [])"
    by (simp add: button_step_Idle)
  have "Suc c + n < max 1 (debounce_window cfg)" using Suc.prems by simp
  from Suc.IH [OF this] show ?case
    by (simp add: button_run_Cons s)
qed

lemma idle_asserted_accept:
  assumes "max 1 (debounce_window cfg) \<le> c + 1"
  shows "button_step cfg True \<lparr>button_state = Idle, stable = c, held = h\<rparr> =
     (\<lparr>button_state = Pressed, stable = 0, held = 0\<rparr>, [PressDown])"
  using assms by (simp add: button_step_Idle)

lemma fired_asserted:
  "button_run cfg \<lparr>button_state = LongPressFired, stable = 0, held = h\<rparr> (replicate n True) =
     (\<lparr>button_state = LongPressFired, stable = 0, held = h\<rparr>, [])"
  by (induction n) (simp_all add: button_run_Nil button_run_Cons button_step_LongPressFired)

lemma pressed_asserted:
  assumes "h \<le> long_press_threshold cfg"
  shows "button_run cfg \<lparr>button_state = Pressed, stable = 0, held = h\<rparr> (replicate n True) =
     (if h + n \<le> long_press_threshold cfg
      then (\<lparr>button_state = Pressed, stable = 0, held = h + n\<rparr>, [])
      else (\<lparr>button_state = LongPressFired, stable = 0, held = long_press_threshold cfg + 1\<rparr>,
            [LongPress]))"
  using assms
proof (induction n arbitrary: h)
  case 0
  then show ?case by (simp add: button_run_Nil)
next
  case (Suc n)
  show ?case
  proof (cases "h + 1 \<le> long_press_threshold cfg")
    case True
    then have s: "button_step cfg True \<lparr>button_state = Pressed, stable = 0, held = h\<rparr> =
        (\<lparr>button_state = Pressed, stable = 0, held = Suc h\<rparr>, [])"
      by (simp add: button_step_Pressed)
    have "Suc h \<le> long_press_threshold cfg" using True by simp
    from Suc.IH [OF this] show ?thesis
      by (simp add: button_run_Cons s)
  next
    case False
    then have e: "h = long_press_threshold cfg" using Suc.prems by simp
    have s: "button_step cfg True \<lparr>button_state = Pressed, stable = 0, held = h\<rparr> =
        (\<lparr>button_state = LongPressFired, stable = 0, held = long_press_threshold cfg + 1\<rparr>,
         [LongPress])"
      by (simp add: button_step_Pressed e)
    show ?thesis
      using False by (simp add: button_run_Cons s fired_asserted)
  qed
qed

lemma fired_released_below:
  assumes "c + n < max 1 (debounce_window cfg)"
  shows "button_run cfg \<lparr>button_state = LongPressFired, stable = c, held = h\<rparr> (replicate n False) =
     (\<lparr>button_state = LongPressFired, stable = c + n, held = h\<rparr>, [])"
  using assms
proof (induction n arbitrary: c)
  case 0
  show ?case by (simp add: button_run_Nil)
next
  case (Suc n)
  have "\<not> debounce_window cfg \<le> c + 1" using Suc.prems by simp
  then have s: "button_step cfg False \<lparr>button_state = LongPressFired, stable = c, held = h\<rparr> =
      (\<lparr>button_state = LongPressFired, stable = Suc c, held = h\<rparr>, [])"
    by (simp add: button_step_LongPressFired)
  have "Suc c + n < max 1 (debounce_window cfg)" using Suc.prems by simp
  from Suc.IH [OF this] show ?case
    by (simp add: button_run_Cons s)
qed

lemma pressed_released_below:
  assumes "c + n < max 1 (debounce_window cfg)" and "h \<le> long_press_threshold cfg"
  shows "button_run cfg \<lparr>button_state = Pressed, stable = c, held = h\<rparr> (replicate n False) =
     (if h + n \<le> long_press_threshold cfg
      then (\<lparr>button_state = Pressed, stable = c + n, held = h + n\<rparr>, [])
      else (\<lparr>button_state = LongPressFired, stable = c + n, held = long_press_threshold cfg + 1\<rparr>,
            [LongPress]))"
  using assms
proof (induction n arbitrary: c h)
  case 0
  then show ?case by (simp add: button_run_Nil)
next
  case (Suc n)
  have w: "\<not> debounce_window cfg \<le> c + 1" using Suc.prems by simp
  have c': "Suc c + n < max 1 (debounce_window cfg)" using Suc.prems by simp
  show ?case
  proof (cases "h + 1 \<le> long_press_threshold cfg")
    case True
    then have s: "button_step cfg False \<lparr>button_state = Pressed, stable = c, held = h\<rparr> =
        (\<lparr>button_state = Pressed, stable = Suc c, held = Suc h\<rparr>, [])"
      using w by (simp add: button_step_Pressed)
    have "Suc h \<le> long_press_threshold cfg" using True by simp
    from Suc.IH [OF c' this] show ?thesis
      by (simp add: button_run_Cons s)
  next
    case False
    then have e: "h = long_press_threshold cfg" using Suc.prems by simp
    have s: "button_step cfg False \<lparr>button_state = Pressed, stable = c, held = h\<rparr> =
        (\<lparr>button_state = LongPressFired, stable = Suc c, held = long_press_threshold cfg + 1\<rparr>,
         [LongPress])"
      using w by (simp add: button_step_Pressed e)
    show ?thesis
      using False fired_released_below [OF c', of "long_press_threshold cfg + 1"]
      by (simp add: button_run_Cons s)
  qed
qed


lemma replicate_last: "0 < k \<Longrightarrow> replicate k x = replicate (k - 1) x @ [x]"
  by (cases k) (simp_all add: replicate_append_same)

lemma replicate_split: "k \<le> n \<Longrightarrow> replicate n x = replicate k x @ replicate (n - k) x"
  by (simp add: replicate_add [symmetric])

lemma window_facts:
  assumes "k = max 1 (debounce_window cfg)"
  shows "0 < k" and "0 + (k - 1) < max 1 (debounce_window cfg)"
    and "max 1 (debounce_window cfg) \<le> (k - 1) + 1" and "debounce_window cfg \<le> (k - 1) + 1"
  using assms by simp_all

lemma press_accepted:
  assumes k: "k = max 1 (debounce_window cfg)"
  shows "button_run cfg \<lparr>button_state = Idle, stable = 0, held = h\<rparr> (replicate k True) =
     (\<lparr>button_state = Pressed, stable = 0, held = 0\<rparr>, [PressDown])"
proof -
  note w = window_facts [OF k]
  have 1: "button_run cfg \<lparr>button_state = Idle, stable = 0, held = h\<rparr> (replicate (k - 1) True) =
      (\<lparr>button_state = Idle, stable = 0 + (k - 1), held = h\<rparr>, [])"
    by (rule idle_asserted_below [OF w(2)])
  have 2: "button_run cfg \<lparr>button_state = Idle, stable = 0 + (k - 1), held = h\<rparr> [True] =
      (\<lparr>button_state = Pressed, stable = 0, held = 0\<rparr>, [PressDown])"
    by (rule run_one, rule idle_asserted_accept) (use w(3) in simp)
  have "replicate k True = replicate (k - 1) True @ [True]"
    by (rule replicate_last [OF w(1)])
  then show ?thesis
    using run_then [OF 1 2] by simp
qed

lemma hold_run:
  assumes k: "k = max 1 (debounce_window cfg)" and l: "k \<le> l"
  shows "button_run cfg \<lparr>button_state = Idle, stable = 0, held = h\<rparr> (replicate l True) =
     (if l - k \<le> long_press_threshold cfg
      then (\<lparr>button_state = Pressed, stable = 0, held = l - k\<rparr>, [PressDown])
      else (\<lparr>button_state = LongPressFired, stable = 0, held = long_press_threshold cfg + 1\<rparr>,
            [PressDown, LongPress]))"
proof -
  have r: "replicate l True = replicate k True @ replicate (l - k) True"
    by (rule replicate_split [OF l])
  have z: "(0::nat) \<le> long_press_threshold cfg" by simp
  note 2 = pressed_asserted [OF z, of "l - k"]
  show ?thesis
  proof (cases "l - k \<le> long_press_threshold cfg")
    case True
    then have 3: "button_run cfg \<lparr>button_state = Pressed, stable = 0, held = 0\<rparr>
        (replicate (l - k) True) = (\<lparr>button_state = Pressed, stable = 0, held = l - k\<rparr>, [])"
      using 2 by simp
    show ?thesis
      unfolding r using run_then [OF press_accepted [OF k] 3] True by simp
  next
    case False
    then have 3: "button_run cfg \<lparr>button_state = Pressed, stable = 0, held = 0\<rparr>
        (replicate (l - k) True) =
        (\<lparr>button_state = LongPressFired, stable = 0, held = long_press_threshold cfg + 1\<rparr>,
         [LongPress])"
      using 2 by simp
    show ?thesis
      unfolding r using run_then [OF press_accepted [OF k] 3] False by simp
  qed
qed

lemma release_pressed:
  assumes k: "k = max 1 (debounce_window cfg)" and h: "h \<le> long_press_threshold cfg"
  shows "\<exists>h'. button_run cfg \<lparr>button_state = Pressed, stable = 0, held = h\<rparr> (replicate k False) =
     (\<lparr>button_state = Idle, stable = 0, held = h'\<rparr>,
      if h + k \<le> long_press_threshold cfg then [PressUp, Click] else [LongPress, PressUp])"
proof -
  let ?T = "long_press_threshold cfg"
  note w = window_facts [OF k]
  have r: "replicate k False = replicate (k - 1) False @ [False]"
    by (rule replicate_last [OF w(1)])
  note 1 = pressed_released_below [OF w(2) h]
  have e: "h + (k - 1) + 1 = h + k" using w(1) by simp
  show ?thesis
  proof (cases "h + (k - 1) \<le> ?T")
    case True
    then have 2: "button_run cfg \<lparr>button_state = Pressed, stable = 0, held = h\<rparr>
        (replicate (k - 1) False) =
        (\<lparr>button_state = Pressed, stable = 0 + (k - 1), held = h + (k - 1)\<rparr>, [])"
      using 1 by simp
    have 3: "button_step cfg False \<lparr>button_state = Pressed, stable = 0 + (k - 1), held = h + (k - 1)\<rparr> =
        (\<lparr>button_state = Idle, stable = 0, held = h + k\<rparr>,
         if h + k \<le> ?T then [PressUp, Click] else [LongPress, PressUp])"
      using w(4) e by (auto simp: button_step_Pressed)
    show ?thesis
      unfolding r using run_then [OF 2 run_one [OF 3]] by auto
  next
    case False
    then have 2: "button_run cfg \<lparr>button_state = Pressed, stable = 0, held = h\<rparr>
        (replicate (k - 1) False) =
        (\<lparr>button_state = LongPressFired, stable = 0 + (k - 1), held = ?T + 1\<rparr>, [LongPress])"
      using 1 by simp
    have 3: "button_step cfg False \<lparr>button_state = LongPressFired, stable = 0 + (k - 1), held = ?T + 1\<rparr> =
        (\<lparr>button_state = Idle, stable = 0, held = ?T + 1\<rparr>, [PressUp])"
      using w(4) by (simp add: button_step_LongPressFired)
    have n: "\<not> h + k \<le> ?T" using False by simp
    show ?thesis
      unfolding r using run_then [OF 2 run_one [OF 3]] n by auto
  qed
qed

lemma release_fired:
  assumes k: "k = max 1 (debounce_window cfg)"
  shows "button_run cfg \<lparr>button_state = LongPressFired, stable = 0, held = h\<rparr> (replicate k False) =
     (\<lparr>button_state = Idle, stable = 0, held = h\<rparr>, [PressUp])"
proof -
  note w = window_facts [OF k]
  have r: "replicate k False = replicate (k - 1) False @ [False]"
    by (rule replicate_last [OF w(1)])
  note 1 = fired_released_below [OF w(2), of h]
  have 2: "button_step cfg False \<lparr>button_state = LongPressFired, stable = 0 + (k - 1), held = h\<rparr> =
        (\<lparr>button_state = Idle, stable = 0, held = h\<rparr>, [PressUp])"
    using w(4) by (simp add: button_step_LongPressFired)
  show ?thesis
    unfolding r using run_then [OF 1 run_one [OF 2]] by simp
qed

lemma press_run:
  assumes k: "k = max 1 (debounce_window cfg)" and l: "k \<le> l" and r: "k \<le> r"
  shows "\<exists>h'. button_run cfg \<lparr>button_state = Idle, stable = 0, held = h\<rparr> (press a l r) =
     (\<lparr>button_state = Idle, stable = 0, held = h'\<rparr>,
      if l \<le> long_press_threshold cfg then [PressDown, PressUp, Click]
      else [PressDown, LongPress, PressUp])"
proof -
  let ?T = "long_press_threshold cfg"
  let ?I = "\<lambda>h. \<lparr>button_state = Idle, stable = 0, held = h\<rparr>"
  have p: "press a l r = replicate a False @ replicate l True @ replicate k False @ replicate (r - k) False"
    unfolding press_def using replicate_split [OF r, of False] by simp
  have A: "button_run cfg (?I h) (replicate a False) = (?I h, [])"
    by (rule idle_released)
  have Z: "button_run cfg (?I h') (replicate (r - k) False) = (?I h', [])" for h'
    by (rule idle_released)
  show ?thesis
  proof (cases "l - k \<le> ?T")
    case True
    have B: "button_run cfg (?I h) (replicate l True) =
        (\<lparr>button_state = Pressed, stable = 0, held = l - k\<rparr>, [PressDown])"
      using hold_run [OF k l, of h] True by simp
    have "l - k + k = l" using l by simp
    then obtain h' where C: "button_run cfg \<lparr>button_state = Pressed, stable = 0, held = l - k\<rparr>
          (replicate k False) =
        (?I h', if l \<le> ?T then [PressUp, Click] else [LongPress, PressUp])"
      using release_pressed [OF k True] by auto
    have "button_run cfg (?I h) (press a l r) =
        (?I h', [] @ [PressDown] @ (if l \<le> ?T then [PressUp, Click] else [LongPress, PressUp]) @ [])"
      unfolding p by (rule run_then [OF A run_then [OF B run_then [OF C Z]]])
    then show ?thesis by auto
  next
    case False
    have B: "button_run cfg (?I h) (replicate l True) =
        (\<lparr>button_state = LongPressFired, stable = 0, held = ?T + 1\<rparr>, [PressDown, LongPress])"
      using hold_run [OF k l, of h] False by simp
    have C: "button_run cfg \<lparr>button_state = LongPressFired, stable = 0, held = ?T + 1\<rparr>
          (replicate k False) = (?I (?T + 1), [PressUp])"
      by (rule release_fired [OF k])
    have "button_run cfg (?I h) (press a l r) =
        (?I (?T + 1), [] @ [PressDown, LongPress] @ [PressUp] @ [])"
      unfolding p by (rule run_then [OF A run_then [OF B run_then [OF C Z]]])
    moreover have "\<not> l \<le> ?T" using False by simp
    ultimately show ?thesis by auto
  qed
qed


lemma presses_run:
  assumes k: "k = max 1 (debounce_window cfg)"
    and ps: "\<forall>(a, l, r) \<in> set ps. k \<le> l \<and> k \<le> r"
  shows "\<exists>h'. button_run cfg \<lparr>button_state = Idle, stable = 0, held = h\<rparr> (presses ps) =
     (\<lparr>button_state = Idle, stable = 0, held = h'\<rparr>,
      concat (map (\<lambda>(a, l, r). if l \<le> long_press_threshold cfg then [PressDown, PressUp, Click]
                                else [PressDown, LongPress, PressUp]) ps))"
  using ps
proof (induction ps arbitrary: h)
  case Nil
  show ?case by (simp add: presses_def button_run_Nil)
next
  case (Cons p ps)
  obtain a l r where p: "p = (a, l, r)" by (cases p)
  have lr: "k \<le> l" "k \<le> r" using Cons.prems p by simp_all
  obtain h1 where 1: "button_run cfg \<lparr>button_state = Idle, stable = 0, held = h\<rparr> (press a l r) =
     (\<lparr>button_state = Idle, stable = 0, held = h1\<rparr>,
      if l \<le> long_press_threshold cfg then [PressDown, PressUp, Click]
      else [PressDown, LongPress, PressUp])"
    using press_run [OF k lr, of h a] by blast
  have "\<forall>(a, l, r) \<in> set ps. k \<le> l \<and> k \<le> r" using Cons.prems by simp
  from Cons.IH [OF this, of h1] obtain h' where
    2: "button_run cfg \<lparr>button_state = Idle, stable = 0, held = h1\<rparr> (presses ps) =
     (\<lparr>button_state = Idle, stable = 0, held = h'\<rparr>,
      concat (map (\<lambda>(a, l, r). if l \<le> long_press_threshold cfg then [PressDown, PressUp, Click]
                                else [PressDown, LongPress, PressUp]) ps))"
    by blast
  have "presses (p # ps) = press a l r @ presses ps"
    by (simp add: presses_def p)
  then show ?case
    using run_then [OF 1 2] by (auto simp: p)
qed

lemma button_events_run: "button_events cfg xs = snd (button_run cfg button_initial xs)"
  by (simp add: button_events_def button_run_def)

text \<open>
  Claim C1. For every trace of samples the events are well paired: they are made of whole
  cycles \<open>PressDown, PressUp, Click\<close> or \<open>PressDown, LongPress, PressUp\<close>, of which only the
  last may still be open, so each \<open>PressDown\<close> has its \<open>PressUp\<close> and a closed cycle has
  exactly one of \<open>Click\<close> and \<open>LongPress\<close>. Every closed cycle of the trace is a click
  cycle if it lasted no longer than the long-press threshold and a long-press cycle if it
  lasted longer. In particular, for a sequence of clean presses, each at least a debounce
  window long and followed by at least a window of release, a press of at most the
  threshold gives \<open>PressDown, PressUp, Click\<close> and a longer one gives
  \<open>PressDown, LongPress, PressUp\<close>; and a line that stays asserted gives one \<open>LongPress\<close>
  and no more, however long it stays so.
\<close>

theorem press_cycle_exclusive:
  "well_paired Idle (button_events cfg xs) \<and>
   (\<forall>(d, es) \<in> set (press_cycles None (button_outputs cfg button_initial xs)).
      es = (if d \<le> long_press_threshold cfg then [PressDown, PressUp, Click]
            else [PressDown, LongPress, PressUp])) \<and>
   ((\<forall>(a, l, r) \<in> set ps. max 1 (debounce_window cfg) \<le> l \<and> max 1 (debounce_window cfg) \<le> r) \<longrightarrow>
      button_events cfg (presses ps) =
        concat (map (\<lambda>(a, l, r). if l \<le> long_press_threshold cfg then [PressDown, PressUp, Click]
                                  else [PressDown, LongPress, PressUp]) ps)) \<and>
   (max 1 (debounce_window cfg) \<le> n \<longrightarrow>
      button_events cfg (replicate a False @ replicate n True) =
        (if n - max 1 (debounce_window cfg) \<le> long_press_threshold cfg then [PressDown]
         else [PressDown, LongPress]))"
proof -
  have i: "button_initial = \<lparr>button_state = Idle, stable = 0, held = 0\<rparr>"
    by (simp add: button_initial_def)
  have A: "well_paired Idle (button_events cfg xs)"
    using well_paired_outputs [of button_initial cfg xs]
    by (simp add: button_events_def button_initial_def)
  have "coupled cfg button_initial None"
    by (simp add: coupled_def button_initial_def)
  from press_cycles_classified [OF this, of xs]
  have B: "\<forall>(d, es) \<in> set (press_cycles None (button_outputs cfg button_initial xs)).
      es = (if d \<le> long_press_threshold cfg then [PressDown, PressUp, Click]
            else [PressDown, LongPress, PressUp])"
    by (auto simp: classified_def)
  have C: "button_events cfg (presses ps) =
        concat (map (\<lambda>(a, l, r). if l \<le> long_press_threshold cfg then [PressDown, PressUp, Click]
                                  else [PressDown, LongPress, PressUp]) ps)"
    if "\<forall>(a, l, r) \<in> set ps. max 1 (debounce_window cfg) \<le> l \<and> max 1 (debounce_window cfg) \<le> r"
    using presses_run [OF refl that, of 0] by (auto simp: button_events_run i)
  have D: "button_events cfg (replicate a False @ replicate n True) =
        (if n - max 1 (debounce_window cfg) \<le> long_press_threshold cfg then [PressDown]
         else [PressDown, LongPress])"
    if n: "max 1 (debounce_window cfg) \<le> n"
  proof -
    have 1: "button_run cfg \<lparr>button_state = Idle, stable = 0, held = 0\<rparr> (replicate a False) =
        (\<lparr>button_state = Idle, stable = 0, held = 0\<rparr>, [])"
      by (rule idle_released)
    show ?thesis
      unfolding button_events_run i button_run_append [of cfg _ "replicate a False"] 1
      using hold_run [OF refl n, of 0] by (simp split: if_splits)
  qed
  show ?thesis
    using A B C D by blast
qed

theorem press_cycle_exclusive_witness:
  "button_events example_button (presses [(1, 3, 2), (4, 9, 3)]) =
     [PressDown, PressUp, Click, PressDown, LongPress, PressUp] \<and>
   button_events example_button (replicate 1 False @ replicate 40 True) = [PressDown, LongPress]"
proof -
  have w: "debounce_window example_button = 2" "long_press_threshold example_button = 5"
    by (simp_all add: example_button_def)
  have "\<forall>(a, l, r) \<in> set [(1, 3, 2), (4, 9, 3)].
      max 1 (debounce_window example_button) \<le> l \<and> max 1 (debounce_window example_button) \<le> r"
    by (simp add: w)
  moreover have "max 1 (debounce_window example_button) \<le> 40"
    by (simp add: w)
  ultimately show ?thesis
    using press_cycle_exclusive [of example_button "[]" "[(1, 3, 2), (4, 9, 3)]" 40 1]
    by (simp add: w)
qed


lemma short_asserted_runs_silent:
  assumes "button_state m = Idle" and "short_runs (debounce_window cfg) True (stable m) xs"
  shows "concat (button_outputs cfg m xs) = []"
  using assms
proof (induction xs arbitrary: m)
  case Nil
  show ?case by simp
next
  case (Cons x xs)
  let ?m = "fst (button_step cfg x m)"
  show ?case
  proof (cases x)
    case True
    then have c: "Suc (stable m) < debounce_window cfg"
      and r: "short_runs (debounce_window cfg) True (Suc (stable m)) xs"
      using Cons.prems(2) by simp_all
    have s: "button_step cfg x m = (m\<lparr>stable := stable m + 1\<rparr>, [])"
      using c True by (simp add: button_step_Idle [OF Cons.prems(1)])
    have "concat (button_outputs cfg ?m xs) = []"
      by (rule Cons.IH) (use s r Cons.prems(1) in simp_all)
    then show ?thesis by (simp add: s)
  next
    case False
    then have r: "short_runs (debounce_window cfg) True 0 xs"
      using Cons.prems(2) by simp
    have s: "button_step cfg x m = (m\<lparr>stable := 0\<rparr>, [])"
      using False by (simp add: button_step_Idle [OF Cons.prems(1)])
    have "concat (button_outputs cfg ?m xs) = []"
      by (rule Cons.IH) (use s r Cons.prems(1) in simp_all)
    then show ?thesis by (simp add: s)
  qed
qed

lemma short_released_runs_keep_pressed:
  assumes "button_state m \<noteq> Idle" and "short_runs (debounce_window cfg) False (stable m) xs"
  shows "set (concat (button_outputs cfg m xs)) \<subseteq> {LongPress}"
  using assms
proof (induction xs arbitrary: m)
  case Nil
  show ?case by simp
next
  case (Cons x xs)
  let ?m = "fst (button_step cfg x m)"
  have *: "set (snd (button_step cfg x m)) \<subseteq> {LongPress} \<and> button_state ?m \<noteq> Idle \<and>
           short_runs (debounce_window cfg) False (stable ?m) xs"
  proof (cases "button_state m")
    case Idle
    then show ?thesis using Cons.prems(1) by simp
  next
    case Pressed
    show ?thesis
      using Cons.prems(2) by (cases x) (simp_all add: button_step_Pressed [OF Pressed] Pressed)
  next
    case LongPressFired
    show ?thesis
      using Cons.prems(2)
      by (cases x) (simp_all add: button_step_LongPressFired [OF LongPressFired] LongPressFired)
  qed
  then have "set (concat (button_outputs cfg ?m xs)) \<subseteq> {LongPress}"
    using Cons.IH by blast
  then show ?case using * by simp
qed

lemma stable_history:
  "(button_state (button_final cfg button_initial pre) = Idle \<longrightarrow>
      (\<exists>q. pre = q @ replicate (stable (button_final cfg button_initial pre)) True)) \<and>
   (button_state (button_final cfg button_initial pre) \<noteq> Idle \<longrightarrow>
      (\<exists>q. pre = q @ replicate (stable (button_final cfg button_initial pre)) False))"
proof (induction pre rule: rev_induct)
  case Nil
  show ?case by (simp add: button_initial_def)
next
  case (snoc x pre)
  let ?m = "button_final cfg button_initial pre"
  have f: "button_final cfg button_initial (pre @ [x]) = fst (button_step cfg x ?m)"
    by (simp add: button_final_append)
  have ext: "\<exists>q'. pre @ [b] = q' @ replicate (Suc n) b" if "pre = q @ replicate n b" for q n b
  proof -
    have "pre @ [b] = q @ replicate (Suc n) b"
      unfolding that by (simp add: replicate_append_same)
    then show ?thesis by blast
  qed
  have nil: "\<exists>q'. pre @ [x] = q' @ replicate 0 b" for b :: bool
    by simp
  show ?case
  proof (cases "button_state ?m")
    case Idle
    then obtain q where q: "pre = q @ replicate (stable ?m) True"
      using snoc.IH by blast
    show ?thesis
      unfolding f using ext [OF q] nil
      by (cases x) (simp_all add: button_step_Idle [OF Idle] Idle)
  next
    case Pressed
    then obtain q where q: "pre = q @ replicate (stable ?m) False"
      using snoc.IH by auto
    show ?thesis
      unfolding f using ext [OF q] nil
      by (cases x) (simp_all add: button_step_Pressed [OF Pressed] Pressed)
  next
    case LongPressFired
    then obtain q where q: "pre = q @ replicate (stable ?m) False"
      using snoc.IH by auto
    show ?thesis
      unfolding f using ext [OF q] nil
      by (cases x) (simp_all add: button_step_LongPressFired [OF LongPressFired] LongPressFired)
  qed
qed

lemma snoc_replicate:
  assumes "pre = q @ replicate n b"
  shows "pre @ [b] = q @ replicate (Suc n) b"
  using assms by (simp add: replicate_append_same)

lemma replicate_suffix:
  assumes "pre = q @ replicate n b" and "k \<le> n"
  shows "\<exists>q'. pre = q' @ replicate k b"
proof -
  have "replicate n b = replicate (n - k) b @ replicate k b"
    using assms(2) by (simp add: replicate_add [symmetric])
  then have "pre = (q @ replicate (n - k) b) @ replicate k b"
    using assms(1) by simp
  then show ?thesis by blast
qed

lemma PressDown_needs_window:
  assumes "PressDown \<in> set (snd (button_step cfg x (button_final cfg button_initial pre)))"
  shows "\<exists>q. pre @ [x] = q @ replicate (max 1 (debounce_window cfg)) True"
proof -
  let ?m = "button_final cfg button_initial pre"
  have i: "button_state ?m = Idle"
    using assms
    by (cases "button_state ?m")
      (auto simp: button_step_Pressed button_step_LongPressFired split: if_splits)
  have x: "x" and w: "debounce_window cfg \<le> stable ?m + 1"
    using assms by (auto simp: button_step_Idle [OF i] split: if_splits)
  obtain q where "pre = q @ replicate (stable ?m) True"
    using stable_history [of cfg pre] i by blast
  then have "pre @ [True] = q @ replicate (Suc (stable ?m)) True"
    by (rule snoc_replicate)
  then have "pre @ [x] = q @ replicate (Suc (stable ?m)) True"
    using x by simp
  moreover have "max 1 (debounce_window cfg) \<le> Suc (stable ?m)"
    using w by simp
  ultimately show ?thesis
    by (rule replicate_suffix)
qed

lemma PressUp_needs_window:
  assumes "PressUp \<in> set (snd (button_step cfg x (button_final cfg button_initial pre)))"
  shows "\<exists>q. pre @ [x] = q @ replicate (max 1 (debounce_window cfg)) False"
proof -
  let ?m = "button_final cfg button_initial pre"
  have i: "button_state ?m \<noteq> Idle"
    using assms
    by (cases "button_state ?m") (auto simp: button_step_Idle split: if_splits)
  have "\<not> x \<and> debounce_window cfg \<le> stable ?m + 1"
    using assms
    by (cases "button_state ?m")
      (auto simp: button_step_Idle button_step_Pressed button_step_LongPressFired split: if_splits)
  then have x: "\<not> x" and w: "debounce_window cfg \<le> stable ?m + 1"
    by simp_all
  obtain q where "pre = q @ replicate (stable ?m) False"
    using stable_history [of cfg pre] i by blast
  then have "pre @ [False] = q @ replicate (Suc (stable ?m)) False"
    by (rule snoc_replicate)
  then have "pre @ [x] = q @ replicate (Suc (stable ?m)) False"
    using x by simp
  moreover have "max 1 (debounce_window cfg) \<le> Suc (stable ?m)"
    using w by simp
  ultimately show ?thesis
    by (rule replicate_suffix)
qed

lemma held_history:
  "button_state (button_final cfg button_initial pre) = Pressed \<longrightarrow>
     held (button_final cfg button_initial pre) \<le> long_press_threshold cfg \<and>
     (\<exists>q. button_outputs cfg button_initial pre =
            q @ [PressDown] # replicate (held (button_final cfg button_initial pre)) [])"
proof (induction pre rule: rev_induct)
  case Nil
  show ?case by (simp add: button_initial_def)
next
  case (snoc x pre)
  let ?m = "button_final cfg button_initial pre"
  have f: "button_final cfg button_initial (pre @ [x]) = fst (button_step cfg x ?m)"
    by (simp add: button_final_append)
  have o: "button_outputs cfg button_initial (pre @ [x]) =
      button_outputs cfg button_initial pre @ [snd (button_step cfg x ?m)]"
    by (simp add: button_outputs_append)
  show ?case
  proof (cases "button_state ?m")
    case Idle
    show ?thesis
      unfolding f o
      by (cases x) (simp_all add: button_step_Idle [OF Idle] Idle)
  next
    case Pressed
    then obtain q where h: "held ?m \<le> long_press_threshold cfg"
      and q: "button_outputs cfg button_initial pre = q @ [PressDown] # replicate (held ?m) []"
      using snoc.IH by blast
    have "button_outputs cfg button_initial pre @ [[]] =
        q @ [PressDown] # replicate (Suc (held ?m)) []"
      unfolding q by (simp add: replicate_append_same)
    then have e: "\<exists>q. button_outputs cfg button_initial pre @ [[]] =
        q @ [PressDown] # replicate (Suc (held ?m)) []"
      by blast
    show ?thesis
      unfolding f o using e
      by (cases x) (simp_all add: button_step_Pressed [OF Pressed] Pressed)
  next
    case LongPressFired
    show ?thesis
      unfolding f o
      by (cases x) (simp_all add: button_step_LongPressFired [OF LongPressFired] LongPressFired)
  qed
qed

lemma LongPress_after_threshold:
  assumes "LongPress \<in> set (snd (button_step cfg x (button_final cfg button_initial pre)))"
  shows "\<exists>q. button_outputs cfg button_initial pre =
            q @ [PressDown] # replicate (long_press_threshold cfg) []"
proof -
  let ?m = "button_final cfg button_initial pre"
  have p: "button_state ?m = Pressed"
    using assms
    by (cases "button_state ?m")
      (auto simp: button_step_Idle button_step_LongPressFired split: if_splits)
  have "long_press_threshold cfg < held ?m + 1"
    using assms by (auto simp: button_step_Pressed [OF p] split: if_splits)
  moreover have "held ?m \<le> long_press_threshold cfg"
    using held_history [of cfg pre] p by blast
  ultimately have "held ?m = long_press_threshold cfg"
    by simp
  then show ?thesis
    using held_history [of cfg pre] p by auto
qed


text \<open>
  Claim C8. A trace in which every run of asserted samples is shorter than the debounce
  window produces no event at all; while the button is pressed, a trace in which every run
  of released samples is shorter than the window produces no \<open>PressUp\<close>, \<open>Click\<close> or
  \<open>PressDown\<close>. For every trace, a tick fires \<open>PressDown\<close> only if the trace up to that tick
  ends with a full window of asserted samples, and \<open>PressUp\<close> only if it ends with a full
  window of released samples. A tick fires \<open>LongPress\<close> only if the tick that fired
  \<open>PressDown\<close>, that is the entry into \<open>Pressed\<close>, lies exactly one more than the long-press
  threshold ticks back, with no event in between.
\<close>

theorem debounced_transitions:
  "(short_runs (debounce_window cfg) True 0 xs \<longrightarrow> button_events cfg xs = []) \<and>
   (button_state (button_final cfg button_initial pre) \<noteq> Idle \<longrightarrow>
    short_runs (debounce_window cfg) False (stable (button_final cfg button_initial pre)) xs \<longrightarrow>
      set (concat (button_outputs cfg (button_final cfg button_initial pre) xs)) \<subseteq> {LongPress}) \<and>
   (PressDown \<in> set (snd (button_step cfg x (button_final cfg button_initial pre))) \<longrightarrow>
      (\<exists>q. pre @ [x] = q @ replicate (max 1 (debounce_window cfg)) True)) \<and>
   (PressUp \<in> set (snd (button_step cfg x (button_final cfg button_initial pre))) \<longrightarrow>
      (\<exists>q. pre @ [x] = q @ replicate (max 1 (debounce_window cfg)) False)) \<and>
   (LongPress \<in> set (snd (button_step cfg x (button_final cfg button_initial pre))) \<longrightarrow>
      (\<exists>q. button_outputs cfg button_initial pre =
             q @ [PressDown] # replicate (long_press_threshold cfg) []))"
proof -
  have A: "button_events cfg xs = []" if "short_runs (debounce_window cfg) True 0 xs"
    unfolding button_events_def
    by (rule short_asserted_runs_silent) (use that in \<open>simp_all add: button_initial_def\<close>)
  show ?thesis
    using A short_released_runs_keep_pressed PressDown_needs_window PressUp_needs_window
      LongPress_after_threshold
    by blast
qed

theorem debounced_transitions_witness:
  "button_events example_button [False, True, False, True, False] = [] \<and>
   (\<exists>q. [False, True, True] = q @ replicate 2 True) \<and>
   (\<exists>q. button_outputs example_button button_initial [False, True, True, True, True, True, True, True] =
          q @ [PressDown] # replicate 5 [])"
proof -
  have w: "debounce_window example_button = 2" "long_press_threshold example_button = 5"
    by (simp_all add: example_button_def)
  have e: "max 1 (debounce_window example_button) = 2"
    by (simp add: w)
  have 1: "short_runs (debounce_window example_button) True 0 [False, True, False, True, False]"
    by (simp add: w)
  have 2: "PressDown \<in> set (snd (button_step example_button True
              (button_final example_button button_initial [False, True])))"
    by (simp add: button_step_def button_timer_def button_edge_def w button_initial_def)
  have 3: "LongPress \<in> set (snd (button_step example_button True
              (button_final example_button button_initial
                 [False, True, True, True, True, True, True, True])))"
    by (simp add: button_step_def button_timer_def button_edge_def w button_initial_def)
  have a: "button_events example_button [False, True, False, True, False] = []"
    using debounced_transitions [of example_button "[False, True, False, True, False]"] 1 by blast
  have "\<exists>q. [False, True] @ [True] = q @ replicate (max 1 (debounce_window example_button)) True"
    using debounced_transitions [of example_button _ "[False, True]" True] 2 by blast
  then have b: "\<exists>q. [False, True, True] = q @ replicate 2 True"
    unfolding e by (simp only: append.simps)
  have "\<exists>q. button_outputs example_button button_initial
                  [False, True, True, True, True, True, True, True] =
          q @ [PressDown] # replicate (long_press_threshold example_button) []"
    using debounced_transitions [of example_button _
        "[False, True, True, True, True, True, True, True]" True] 3 by blast
  then have c: "\<exists>q. button_outputs example_button button_initial
                  [False, True, True, True, True, True, True, True] =
          q @ [PressDown] # replicate 5 []"
    unfolding w .
  show ?thesis
    using a b c by (intro conjI)
qed

end
